theory Spec2Isabelle
  imports Complex_Main "HOL-Library.Log_Nat" "HOL-Library.Sublist" "HOL-Library.Monad_Syntax"
begin

section \<open>JavaScript values used by the CSS expression AST\<close>

subsection \<open>Numbers\<close>

text \<open>
  A JavaScript number is a double. \<open>Fin r\<close> is the finite number \<open>r\<close> (\<open>Fin 0\<close> is the
  positive zero), \<open>NegZero\<close> is the negative zero, and \<open>PInf\<close>, \<open>NInf\<close> and \<open>NaN\<close> are
  \<open>Infinity\<close>, \<open>-Infinity\<close> and \<open>NaN\<close>. The numbers of a program are the \<open>Fin r\<close> with a
  real \<open>r\<close> that a double represents; an operation yields the exact result rounded to the
  nearest double, as IEEE 754 has it.
\<close>

datatype jsnum = Fin real | NegZero | PInf | NInf | NaN

fun isFinite :: "jsnum \<Rightarrow> bool" where
  "isFinite (Fin r) = True"
| "isFinite NegZero = True"
| "isFinite PInf = False"
| "isFinite NInf = False"
| "isFinite NaN = False"

fun is_zero :: "jsnum \<Rightarrow> bool" where
  "is_zero (Fin r) = (r = 0)"
| "is_zero NegZero = True"
| "is_zero x = False"

fun is_inf :: "jsnum \<Rightarrow> bool" where
  "is_inf PInf = True"
| "is_inf NInf = True"
| "is_inf x = False"

text \<open>The sign bit of a number that is not \<open>NaN\<close>.\<close>

fun negative :: "jsnum \<Rightarrow> bool" where
  "negative (Fin r) = (r < 0)"
| "negative NegZero = True"
| "negative NInf = True"
| "negative x = False"

definition zero_of :: "bool \<Rightarrow> jsnum" where
  "zero_of neg = (if neg then NegZero else Fin 0)"

definition inf_of :: "bool \<Rightarrow> jsnum" where
  "inf_of neg = (if neg then NInf else PInf)"

text \<open>
  Rounding of a real number to a double, to the nearest and to the even one of two
  nearest: the doubles around a number \<open>a\<close> in absolute value are the multiples of
  \<open>2 ^ e\<close>, where \<open>e\<close> is 52 below the binary exponent of \<open>a\<close> and at least \<open>-1074\<close> (the
  binary exponent is found as the bit length of \<open>a * 2 ^ 1074\<close>). A number of
  \<open>2 ^ 1024 - 2 ^ 970\<close> or more in absolute value, half way from the largest double to
  \<open>2 ^ 1024\<close>, rounds to an infinity, and a number that rounds to zero keeps its sign.
\<close>

definition pow2 :: "int \<Rightarrow> real" where
  "pow2 e = (if 0 \<le> e then 2 ^ nat e else 1 / 2 ^ nat (- e))"

definition round_half_even :: "real \<Rightarrow> int" where
  "round_half_even y =
     (let f = \<lfloor>y\<rfloor>; d = y - of_int f
      in if d < 1 / 2 then f else if 1 / 2 < d then f + 1 else if even f then f else f + 1)"

definition round_to_double :: "real \<Rightarrow> jsnum" where
  "round_to_double x =
     (let a = \<bar>x\<bar>;
          e = max (- 1074) (bitlen \<lfloor>a * 2 ^ 1074\<rfloor> - 1127);
          m = round_half_even (a / pow2 e)
      in if 2 ^ 1024 - 2 ^ 970 \<le> a then inf_of (x < 0)
         else if m = 0 then zero_of (x < 0)
         else Fin ((if x < 0 then - 1 else 1) * (of_int m * pow2 e)))"

text \<open>
  \<open>a + b\<close>. Opposite infinities add up to \<open>NaN\<close>; an exact sum of zero is the positive
  zero, but for two negative zeros.
\<close>

fun jsadd :: "jsnum \<Rightarrow> jsnum \<Rightarrow> jsnum" where
  "jsadd NaN b = NaN"
| "jsadd a NaN = NaN"
| "jsadd (Fin x) (Fin y) = (if x + y = 0 then Fin 0 else round_to_double (x + y))"
| "jsadd NegZero NegZero = NegZero"
| "jsadd NegZero (Fin y) = Fin y"
| "jsadd (Fin x) NegZero = Fin x"
| "jsadd PInf NInf = NaN"
| "jsadd NInf PInf = NaN"
| "jsadd PInf b = PInf"
| "jsadd NInf b = NInf"
| "jsadd a PInf = PInf"
| "jsadd a NInf = NInf"

text \<open>
  \<open>a * b\<close>. The sign of the product is the product of the signs; an infinity times a zero
  is \<open>NaN\<close>.
\<close>

fun jsmul :: "jsnum \<Rightarrow> jsnum \<Rightarrow> jsnum" where
  "jsmul NaN b = NaN"
| "jsmul a NaN = NaN"
| "jsmul (Fin x) (Fin y) =
     (if x = 0 \<or> y = 0 then zero_of ((x < 0) \<noteq> (y < 0)) else round_to_double (x * y))"
| "jsmul a b =
     (if (is_inf a \<and> is_zero b) \<or> (is_zero a \<and> is_inf b) then NaN
      else if is_inf a \<or> is_inf b then inf_of (negative a \<noteq> negative b)
      else zero_of (negative a \<noteq> negative b))"

text \<open>
  \<open>a / b\<close>. The sign of the quotient is the quotient of the signs; a number that is not
  zero over a zero is an infinity; a zero over a zero and an infinity over an infinity
  are \<open>NaN\<close>.
\<close>

fun jsdiv :: "jsnum \<Rightarrow> jsnum \<Rightarrow> jsnum" where
  "jsdiv NaN b = NaN"
| "jsdiv a NaN = NaN"
| "jsdiv (Fin x) (Fin y) =
     (if y = 0 then (if x = 0 then NaN else inf_of (x < 0))
      else if x = 0 then zero_of (y < 0)
      else round_to_double (x / y))"
| "jsdiv a b =
     (if is_inf a then (if is_inf b then NaN else inf_of (negative a \<noteq> negative b))
      else if is_inf b then zero_of (negative a \<noteq> negative b)
      else if is_zero b then (if is_zero a then NaN else inf_of (negative a \<noteq> negative b))
      else zero_of (negative a \<noteq> negative b))"

text \<open>
  The order of the numbers that are not \<open>NaN\<close>, with the negative zero below the
  positive zero, as \<open>Math.min\<close> and \<open>Math.max\<close> have it.
\<close>

fun jsle :: "jsnum \<Rightarrow> jsnum \<Rightarrow> bool" where
  "jsle NaN b = False"
| "jsle a NaN = False"
| "jsle NInf b = True"
| "jsle a PInf = True"
| "jsle PInf b = False"
| "jsle a NInf = False"
| "jsle (Fin x) (Fin y) = (x \<le> y)"
| "jsle NegZero (Fin y) = (0 \<le> y)"
| "jsle (Fin x) NegZero = (x < 0)"
| "jsle NegZero NegZero = True"

text \<open>\<open>Math.min(a, b)\<close> and \<open>Math.max(a, b)\<close>: \<open>NaN\<close> when either argument is.\<close>

definition Math_min :: "jsnum \<Rightarrow> jsnum \<Rightarrow> jsnum" where
  "Math_min a b = (if a = NaN \<or> b = NaN then NaN else if jsle a b then a else b)"

definition Math_max :: "jsnum \<Rightarrow> jsnum \<Rightarrow> jsnum" where
  "Math_max a b = (if a = NaN \<or> b = NaN then NaN else if jsle a b then b else a)"

subsection \<open>Strings\<close>

text \<open>
  Strings are byte strings. \<open>toLowerCase\<close> and the \<open>i\<close> flag of a regular expression
  act on the letters \<open>A\<close> to \<open>Z\<close>; every other character is left as it is.
\<close>

definition lower_char :: "char \<Rightarrow> char" where
  "lower_char ch =
     (let n = (of_char ch :: nat) in if 65 \<le> n \<and> n \<le> 90 then char_of (n + 32) else ch)"

definition upper_char :: "char \<Rightarrow> char" where
  "upper_char ch =
     (let n = (of_char ch :: nat) in if 97 \<le> n \<and> n \<le> 122 then char_of (n - 32) else ch)"

definition toLowerCase :: "string \<Rightarrow> string" where
  "toLowerCase str = map lower_char str"

definition toUpperCase :: "string \<Rightarrow> string" where
  "toUpperCase str = map upper_char str"

text \<open>\<open>Array.prototype.join\<close> on an array of strings.\<close>

fun join :: "string \<Rightarrow> string list \<Rightarrow> string" where
  "join sep [] = []"
| "join sep [x] = x"
| "join sep (x # y # ys) = x @ sep @ join sep (y # ys)"

text \<open>\<open>FINAL_URL_RE = /^(data|https)\:/i\<close>, as \<open>FINAL_URL_RE.test(url)\<close>.\<close>

definition FINAL_URL_RE_test :: "string \<Rightarrow> bool" where
  "FINAL_URL_RE_test url =
     (toLowerCase (take 5 url) = ''data:'' \<or> toLowerCase (take 6 url) = ''https:'')"

text \<open>
  \<open>Math.PI\<close> is the number \<open>884279719003555 / 2 ^ 48\<close> (the double nearest to \<open>\<pi>\<close>).
  \<open>DEG_TO_RAD = 2 * Math.PI / 360\<close> and \<open>GRAD_TO_RAD = Math.PI / 200\<close>.
\<close>

definition Math_PI :: real where
  "Math_PI = 884279719003555 / 281474976710656"

definition DEG_TO_RAD :: jsnum where
  "DEG_TO_RAD = jsdiv (jsmul (Fin 2) (Fin Math_PI)) (Fin 360)"

definition GRAD_TO_RAD :: jsnum where
  "GRAD_TO_RAD = jsdiv (Fin Math_PI) (Fin 200)"

section \<open>The node classes\<close>

text \<open>
  The five concrete subclasses of \<open>CssNumericNode\<close>, with the fields \<open>num_\<close> and
  \<open>units_\<close> as the objects store them. The field \<open>type_\<close> is fixed by the class.
  The fields are read by \<open>num_of\<close>, \<open>units_of\<close> and \<open>type_of\<close>.
\<close>

datatype numeric =
    NumberNode jsnum
  | PercentNode jsnum
  | LengthNode jsnum string
  | AngleNode jsnum string
  | TimeNode jsnum string

text \<open>
  The subclasses of \<open>CssNode\<close>, with their private fields. A \<open>CssTranslateNode\<close> is a
  \<open>CssFuncNode\<close> whose extra field \<open>suffix_\<close> is never read, so it is a \<open>FuncNode\<close>.
  \<open>null\<close> in \<open>dimensions_\<close> and \<open>def_\<close> is \<open>None\<close>.
\<close>

datatype node =
    PassthroughNode string
  | ConcatNode "node list"
  | UrlNode string
  | NumericNode numeric
  | FuncNode string "node list" "string list option"
  | VarNode string "node option"
  | CalcNode node
  | CalcSumNode node node string
  | CalcProductNode node node string

subsection \<open>Constructors\<close>

definition CssPassthroughNode :: "string \<Rightarrow> node" where
  "CssPassthroughNode css = PassthroughNode css"

text \<open>\<open>this.array_ = opt_array || []\<close>: an array is truthy, also when empty.\<close>

definition CssConcatNode :: "node list option \<Rightarrow> node" where
  "CssConcatNode opt_array = ConcatNode (case opt_array of Some array \<Rightarrow> array | None \<Rightarrow> [])"

definition CssUrlNode :: "string \<Rightarrow> node" where
  "CssUrlNode url = UrlNode url"

definition CssNumberNode :: "jsnum \<Rightarrow> numeric" where
  "CssNumberNode num = NumberNode num"

definition CssPercentNode :: "jsnum \<Rightarrow> numeric" where
  "CssPercentNode num = PercentNode num"

definition CssLengthNode :: "jsnum \<Rightarrow> string \<Rightarrow> numeric" where
  "CssLengthNode num units = LengthNode num (toLowerCase units)"

definition CssAngleNode :: "jsnum \<Rightarrow> string \<Rightarrow> numeric" where
  "CssAngleNode num units = AngleNode num (toLowerCase units)"

definition CssTimeNode :: "jsnum \<Rightarrow> string \<Rightarrow> numeric" where
  "CssTimeNode num units = TimeNode num (toLowerCase units)"

definition CssFuncNode :: "string \<Rightarrow> node list \<Rightarrow> string list option \<Rightarrow> node" where
  "CssFuncNode name args opt_dimensions = FuncNode (toLowerCase name) args opt_dimensions"

definition CssTranslateNode :: "string \<Rightarrow> node list \<Rightarrow> node" where
  "CssTranslateNode suffix' args =
     CssFuncNode (''translate'' @ toUpperCase suffix') args
       (if suffix' = [] then Some [''w'', ''h'']
        else if suffix' = ''x'' then Some [''w'']
        else if suffix' = ''y'' then Some [''h'']
        else if suffix' = ''z'' then Some [''z'']
        else if suffix' = ''3d'' then Some [''w'', ''h'', ''z'']
        else None)"

definition CssVarNode :: "string \<Rightarrow> node option \<Rightarrow> node" where
  "CssVarNode varName opt_def = VarNode varName opt_def"

definition CssCalcNode :: "node \<Rightarrow> node" where
  "CssCalcNode expr = CalcNode expr"

definition CssCalcSumNode :: "node \<Rightarrow> node \<Rightarrow> string \<Rightarrow> node" where
  "CssCalcSumNode left right op = CalcSumNode left right op"

definition CssCalcProductNode :: "node \<Rightarrow> node \<Rightarrow> string \<Rightarrow> node" where
  "CssCalcProductNode left right op = CalcProductNode left right op"

subsection \<open>Fields of a numeric node\<close>

fun type_of :: "numeric \<Rightarrow> string" where
  "type_of (NumberNode n) = ''NUM''"
| "type_of (PercentNode n) = ''PRC''"
| "type_of (LengthNode n u) = ''LEN''"
| "type_of (AngleNode n u) = ''ANG''"
| "type_of (TimeNode n u) = ''TME''"

fun num_of :: "numeric \<Rightarrow> jsnum" where
  "num_of (NumberNode n) = n"
| "num_of (PercentNode n) = n"
| "num_of (LengthNode n u) = n"
| "num_of (AngleNode n u) = n"
| "num_of (TimeNode n u) = n"

fun units_of :: "numeric \<Rightarrow> string" where
  "units_of (NumberNode n) = []"
| "units_of (PercentNode n) = ''%''"
| "units_of (LengthNode n u) = u"
| "units_of (AngleNode n u) = u"
| "units_of (TimeNode n u) = u"

text \<open>\<open>x instanceof CssNumberNode\<close> and \<open>x instanceof CssPercentNode\<close>.\<close>

fun instanceof_CssNumberNode :: "numeric \<Rightarrow> bool" where
  "instanceof_CssNumberNode (NumberNode n) = True"
| "instanceof_CssNumberNode x = False"

fun instanceof_CssPercentNode :: "numeric \<Rightarrow> bool" where
  "instanceof_CssPercentNode (PercentNode n) = True"
| "instanceof_CssPercentNode x = False"

subsection \<open>\<open>isConst\<close>\<close>

fun isConst :: "node \<Rightarrow> bool" where
  "isConst (PassthroughNode css) = True"
| "isConst (ConcatNode array) = foldl (\<lambda>acc node. acc \<and> isConst node) True array"
| "isConst (UrlNode url) = (url = [] \<or> FINAL_URL_RE_test url)"
| "isConst (NumericNode x) = True"
| "isConst (FuncNode name args dimensions) = foldl (\<lambda>acc node. acc \<and> isConst node) True args"
| "isConst (VarNode varName def) = False"
| "isConst (CalcNode expr) = False"
| "isConst (CalcSumNode left right op) = False"
| "isConst (CalcProductNode left right op) = False"

subsection \<open>\<open>css\<close>\<close>

text \<open>
  The conversion of a number to a string in a template literal is the language's
  \<open>Number::toString\<close>; it is the parameter \<open>numberToString\<close>.
\<close>

fun numeric_css :: "(jsnum \<Rightarrow> string) \<Rightarrow> numeric \<Rightarrow> string" where
  "numeric_css numberToString x = numberToString (num_of x) @ units_of x"

fun css :: "(jsnum \<Rightarrow> string) \<Rightarrow> node \<Rightarrow> string" where
  "css f (PassthroughNode css') = css'"
| "css f (ConcatNode array) = join '' '' (map (css f) array)"
| \<open>css f (UrlNode url) = (if url = [] then [] else ''url("'' @ url @ ''")'')\<close>
| "css f (NumericNode x) = numeric_css f x"
| "css f (FuncNode name args dimensions) = name @ ''('' @ join '','' (map (css f) args) @ '')''"
| "css f (VarNode varName def) =
     ''var('' @ varName @ (case def of Some d \<Rightarrow> '','' @ css f d | None \<Rightarrow> []) @ '')''"
| "css f (CalcNode expr) = ''calc('' @ css f expr @ '')''"
| "css f (CalcSumNode left right op) = css f left @ '' '' @ op @ '' '' @ css f right"
| "css f (CalcProductNode left right op) = css f left @ '' '' @ op @ '' '' @ css f right"

section \<open>The evaluation context\<close>

text \<open>A thrown \<open>Error\<close>, with its message.\<close>

datatype error = Error string

definition unknownUnits :: "string \<Rightarrow> error" where
  "unknownUnits units = Error (''unknown units: '' @ units)"

record size_wh =
  width :: jsnum
  height :: jsnum

text \<open>
  Modelled from the spec: the implementation of the interface \<open>CssContext\<close>, of which the
  source has the method signatures only. The host's answers are the fields of the record
  below: they do not change during one evaluation. The dimension stack is the only
  state of the context: \<open>pushDimension\<close> pushes on it, \<open>popDimension\<close> pops it (nothing
  on an empty stack), and \<open>getDimension\<close> is its top, \<open>null\<close> when it is empty.
\<close>

record CssContext =
  resolveUrl :: "string \<Rightarrow> string"
  getVar :: "string \<Rightarrow> node option"
  getCurrentFontSize :: jsnum
  getRootFontSize :: jsnum
  getViewportSize :: size_wh
  getCurrentElementSize :: size_wh

text \<open>The calls that the evaluation makes on the context, in the order it makes them.\<close>

datatype call =
    ResolveUrl string
  | GetVar string
  | GetCurrentFontSize
  | GetRootFontSize
  | GetViewportSize
  | GetCurrentElementSize
  | GetDimension
  | PushDimension string
  | PopDimension

text \<open>
  The state that an evaluation changes: the dimension stack of the context, the trace of
  the calls made on the context so far, and the number of node objects created by
  \<open>new\<close> so far. An evaluation that leaves \<open>allocated\<close> as it was has created no node.
\<close>

record estate =
  dimStack :: "string list"
  trace :: "call list"
  allocated :: nat

definition called :: "call \<Rightarrow> estate \<Rightarrow> estate" where
  "called x s = s\<lparr>trace := trace s @ [x]\<rparr>"

definition new_node :: "estate \<Rightarrow> estate" where
  "new_node s = s\<lparr>allocated := Suc (allocated s)\<rparr>"

definition getDimension :: "estate \<Rightarrow> estate \<times> string option" where
  "getDimension s =
     (called GetDimension s, case dimStack s of [] \<Rightarrow> None | dim' # rest \<Rightarrow> Some dim')"

definition pushDimension :: "string \<Rightarrow> estate \<Rightarrow> estate" where
  "pushDimension dim' s = called (PushDimension dim') (s\<lparr>dimStack := dim' # dimStack s\<rparr>)"

definition popDimension :: "estate \<Rightarrow> estate" where
  "popDimension s = called PopDimension (s\<lparr>dimStack := tl (dimStack s)\<rparr>)"

section \<open>Numeric nodes: \<open>createSameUnits\<close>, \<open>norm\<close>, \<open>calcPercent\<close>\<close>

text \<open>
  \<open>createSameUnits(num)\<close>: the value of the new node. The caller counts the object
  (\<open>new_node\<close>).
\<close>

fun createSameUnits :: "numeric \<Rightarrow> jsnum \<Rightarrow> numeric" where
  "createSameUnits (NumberNode n) num = CssNumberNode num"
| "createSameUnits (PercentNode n) num = CssPercentNode num"
| "createSameUnits (LengthNode n u) num = CssLengthNode num u"
| "createSameUnits (AngleNode n u) num = CssAngleNode num u"
| "createSameUnits (TimeNode n u) num = CssTimeNode num u"

text \<open>
  \<open>norm(context)\<close>, here \<open>norm'\<close>: \<open>CssNumericNode.norm\<close> returns \<open>this\<close>; the length, angle
  and time classes override it. An unknown unit throws.
\<close>

fun norm' :: "CssContext \<Rightarrow> estate \<Rightarrow> numeric \<Rightarrow> estate \<times> (error + numeric)" where
  "norm' c s (NumberNode n) = (s, Inr (NumberNode n))"
| "norm' c s (PercentNode n) = (s, Inr (PercentNode n))"
| "norm' c s (LengthNode n u) =
     (if u = ''px'' then (s, Inr (LengthNode n u))
      else if u = ''em'' \<or> u = ''rem'' then
        (let s1 = called (if u = ''em'' then GetCurrentFontSize else GetRootFontSize) s;
             fontSize = (if u = ''em'' then getCurrentFontSize c else getRootFontSize c)
         in (new_node s1, Inr (CssLengthNode (jsmul n fontSize) ''px'')))
      else if u = ''vw'' \<or> u = ''vh'' \<or> u = ''vmin'' \<or> u = ''vmax'' then
        (let s1 = called GetViewportSize s;
             vp = getViewportSize c;
             vw = jsdiv (jsmul (width vp) n) (Fin 100);
             vh = jsdiv (jsmul (height vp) n) (Fin 100);
             num = (if u = ''vw'' then vw
                    else if u = ''vh'' then vh
                    else if u = ''vmin'' then Math_min vw vh
                    else if u = ''vmax'' then Math_max vw vh
                    else Fin 0)
         in (new_node s1, Inr (CssLengthNode num ''px'')))
      else (s, Inl (unknownUnits u)))"
| "norm' c s (AngleNode n u) =
     (if u = ''rad'' then (s, Inr (AngleNode n u))
      else if u = ''deg'' then (new_node s, Inr (CssAngleNode (jsmul n DEG_TO_RAD) ''rad''))
      else if u = ''grad'' then (new_node s, Inr (CssAngleNode (jsmul n GRAD_TO_RAD) ''rad''))
      else (s, Inl (unknownUnits u)))"
| "norm' c s (TimeNode n u) =
     (if u = ''ms'' then (s, Inr (TimeNode n u))
      else if u = ''s'' then (new_node s, Inr (CssTimeNode (jsmul n (Fin 1000)) ''ms''))
      else (s, Inl (unknownUnits u)))"

text \<open>
  \<open>calcPercent(percent, context)\<close>: only \<open>CssLengthNode\<close> overrides the method of
  \<open>CssNumericNode\<close>, which throws.
\<close>

fun calcPercent :: "CssContext \<Rightarrow> estate \<Rightarrow> numeric \<Rightarrow> jsnum \<Rightarrow> estate \<times> (error + numeric)" where
  "calcPercent c s (LengthNode n u) percent =
     (case getDimension s of
        (s1, dim') \<Rightarrow>
          (let s2 = called GetCurrentElementSize s1;
               sz = getCurrentElementSize c;
               side = (if dim' = Some ''w'' then width sz
                       else if dim' = Some ''h'' then height sz
                       else Fin 0)
           in (new_node s2, Inr (CssLengthNode (jsdiv (jsmul side percent) (Fin 100)) ''px''))))"
| "calcPercent c s x percent = (s, Inl (Error (''cannot calculate percent for '' @ type_of x)))"

section \<open>\<open>resolve\<close> and \<open>calc\<close>\<close>

text \<open>
  The result of an evaluation: a thrown error (\<open>Inl\<close>), \<open>null\<close> (\<open>Inr None\<close>) or a
  node. It comes with the state that the evaluation leaves, also when it throws.
\<close>

type_synonym result = "error + node option"

subsection \<open>The arithmetic of \<open>CssCalcSumNode.calc\<close> and \<open>CssCalcProductNode.calc\<close>\<close>

text \<open>
  What both methods do with the two resolved sides first: \<open>null\<close> when either is \<open>null\<close>,
  an error unless both are instances of \<open>CssNumericNode\<close>.
\<close>

definition numeric_sides :: "node option \<Rightarrow> node option \<Rightarrow> error + (numeric \<times> numeric) option" where
  "numeric_sides left right =
     (case left of
        None \<Rightarrow> Inr None
      | Some l \<Rightarrow>
          (case right of
             None \<Rightarrow> Inr None
           | Some r \<Rightarrow>
               (case l of
                  NumericNode a \<Rightarrow>
                    (case r of
                       NumericNode b \<Rightarrow> Inr (Some (a, b))
                     | _ \<Rightarrow> Inl (Error ''left and right must be both numerical''))
                | _ \<Rightarrow> Inl (Error ''left and right must be both numerical''))))"

text \<open>
  \<open>if (left.type_ != right.type_) {...}\<close>: a percent side is replaced by the other
  side's \<open>calcPercent\<close>.
\<close>

definition sum_percent ::
  "CssContext \<Rightarrow> estate \<Rightarrow> numeric \<Rightarrow> numeric \<Rightarrow> estate \<times> (error + numeric \<times> numeric)" where
  "sum_percent c s left right =
     (if type_of left \<noteq> type_of right then
        (if instanceof_CssPercentNode left then
           (case calcPercent c s right (num_of left) of
              (s1, Inl e) \<Rightarrow> (s1, Inl e)
            | (s1, Inr left') \<Rightarrow> (s1, Inr (left', right)))
         else if instanceof_CssPercentNode right then
           (case calcPercent c s left (num_of right) of
              (s1, Inl e) \<Rightarrow> (s1, Inl e)
            | (s1, Inr right') \<Rightarrow> (s1, Inr (left, right')))
         else (s, Inl (Error ''left and right must be the same type'')))
      else (s, Inr (left, right)))"

text \<open>\<open>if (left.units_ != right.units_) {left = left.norm(context); right = right.norm(context);}\<close>\<close>

definition sum_norm ::
  "CssContext \<Rightarrow> estate \<Rightarrow> numeric \<Rightarrow> numeric \<Rightarrow> estate \<times> (error + numeric \<times> numeric)" where
  "sum_norm c s left right =
     (if units_of left \<noteq> units_of right then
        (case norm' c s left of
           (s1, Inl e) \<Rightarrow> (s1, Inl e)
         | (s1, Inr left') \<Rightarrow>
             (case norm' c s1 right of
                (s2, Inl e) \<Rightarrow> (s2, Inl e)
              | (s2, Inr right') \<Rightarrow> (s2, Inr (left', right'))))
      else (s, Inr (left, right)))"

text \<open>\<open>CssCalcSumNode.calc\<close> from the resolved sides on.\<close>

definition calcSum :: "CssContext \<Rightarrow> estate \<Rightarrow> string \<Rightarrow> node option \<Rightarrow> node option \<Rightarrow> estate \<times> result" where
  "calcSum c s op left right =
     (case numeric_sides left right of
        Inl e \<Rightarrow> (s, Inl e)
      | Inr None \<Rightarrow> (s, Inr None)
      | Inr (Some (l, r)) \<Rightarrow>
          (case sum_percent c s l r of
             (s1, Inl e) \<Rightarrow> (s1, Inl e)
           | (s1, Inr (l1, r1)) \<Rightarrow>
               (case sum_norm c s1 l1 r1 of
                  (s2, Inl e) \<Rightarrow> (s2, Inl e)
                | (s2, Inr (l2, r2)) \<Rightarrow>
                    (let sign = (if op = ''+'' then Fin 1 else Fin (- 1))
                     in (new_node s2,
                         Inr (Some (NumericNode
                           (createSameUnits l2 (jsadd (num_of l2) (jsmul sign (num_of r2)))))))))))"

text \<open>
  The choice of \<open>base\<close> and \<open>multi\<close> in \<open>CssCalcProductNode.calc\<close>: for \<open>*\<close> the left
  side is the multiplier when it is a \<open>CssNumberNode\<close>, else the right side has to be
  one; for any other operator the right side has to be one, and \<open>multi\<close> is its inverse.
\<close>

definition product_operands :: "string \<Rightarrow> numeric \<Rightarrow> numeric \<Rightarrow> error + numeric \<times> jsnum" where
  "product_operands op left right =
     (if op = ''*'' then
        (if instanceof_CssNumberNode left then Inr (right, num_of left)
         else if \<not> instanceof_CssNumberNode right then
           Inl (Error ''one of sides in multiplication must be a number'')
         else Inr (left, num_of right))
      else
        (if \<not> instanceof_CssNumberNode right then Inl (Error ''denominator must be a number'')
         else Inr (left, jsdiv (Fin 1) (num_of right))))"

text \<open>\<open>CssCalcProductNode.calc\<close> from the resolved sides on.\<close>

definition calcProduct :: "estate \<Rightarrow> string \<Rightarrow> node option \<Rightarrow> node option \<Rightarrow> estate \<times> result" where
  "calcProduct s op left right =
     (case numeric_sides left right of
        Inl e \<Rightarrow> (s, Inl e)
      | Inr None \<Rightarrow> (s, Inr None)
      | Inr (Some (l, r)) \<Rightarrow>
          (case product_operands op l r of
             Inl e \<Rightarrow> (s, Inl e)
           | Inr (base, multi) \<Rightarrow>
               (let num = jsmul (num_of base) multi
                in if \<not> isFinite num then (s, Inr None)
                   else (new_node s, Inr (Some (NumericNode (createSameUnits base num)))))))"

subsection \<open>The recursion\<close>

text \<open>
  \<open>resolve\<close> is the one method of \<open>CssNode\<close>; \<open>calc\<close> is the method that each class
  overrides (\<open>CssNode.calc\<close> returns \<open>this\<close>). \<open>calc_concat\<close> and \<open>calc_func\<close> are the
  loops of \<open>CssConcatNode.calc\<close> and \<open>CssFuncNode.calc\<close>, over the elements still to
  resolve and, for a function, the dimensions still to use, with the array of the resolved
  nodes so far. The test \<open>this.dimensions_ && i < this.dimensions_.length\<close> is that there
  are dimensions and one is left: the argument is resolved between \<open>pushDimension\<close> and
  \<open>popDimension\<close> then, and without them when \<open>dimensions_\<close> is \<open>null\<close> or used up.

  A variable can be bound to a node that refers to the variable again, and then the
  source calls \<open>resolve\<close> without end and returns nothing. The first argument bounds the
  depth of the nested calls of \<open>resolve\<close>; the result is \<open>None\<close> when the bound is reached.
\<close>

function (sequential) resolve :: "nat \<Rightarrow> CssContext \<Rightarrow> estate \<Rightarrow> node \<Rightarrow> (estate \<times> result) option"
  and calc :: "nat \<Rightarrow> CssContext \<Rightarrow> estate \<Rightarrow> node \<Rightarrow> (estate \<times> result) option"
  and calc_concat ::
    "nat \<Rightarrow> CssContext \<Rightarrow> estate \<Rightarrow> node list \<Rightarrow> node list \<Rightarrow> (estate \<times> result) option"
  and calc_func ::
    "nat \<Rightarrow> CssContext \<Rightarrow> estate \<Rightarrow> string \<Rightarrow> node list \<Rightarrow> string list option \<Rightarrow> node list
       \<Rightarrow> (estate \<times> result) option"
where
  "resolve 0 c s n = None"
| "resolve (Suc k) c s n = (if isConst n then Some (s, Inr (Some n)) else calc k c s n)"
| "calc k c s (PassthroughNode css') = Some (s, Inr (Some (PassthroughNode css')))"
| "calc k c s (NumericNode x) = Some (s, Inr (Some (NumericNode x)))"
| "calc k c s (ConcatNode array) = calc_concat k c s array []"
| \<open>calc k c s (UrlNode url) =
     (let s1 = called (ResolveUrl url) s;
          url' = resolveUrl c url
      in Some (new_node s1, Inr (Some (CssPassthroughNode (''url("'' @ url' @ ''")'')))))\<close>
| "calc k c s (FuncNode name args dimensions) = calc_func k c s name args dimensions []"
| "calc k c s (VarNode varName def) =
     (let s1 = called (GetVar varName) s in
      case getVar c varName of
        Some varNode \<Rightarrow> resolve k c s1 varNode
      | None \<Rightarrow>
          (case def of
             Some d \<Rightarrow> resolve k c s1 d
           | None \<Rightarrow> Some (s1, Inr None)))"
| "calc k c s (CalcNode expr) = resolve k c s expr"
| "calc k c s (CalcSumNode left right op) =
     (case resolve k c s left of
        None \<Rightarrow> None
      | Some (s1, Inl e) \<Rightarrow> Some (s1, Inl e)
      | Some (s1, Inr l) \<Rightarrow>
          (case resolve k c s1 right of
             None \<Rightarrow> None
           | Some (s2, Inl e) \<Rightarrow> Some (s2, Inl e)
           | Some (s2, Inr r) \<Rightarrow> Some (calcSum c s2 op l r)))"
| "calc k c s (CalcProductNode left right op) =
     (case resolve k c s left of
        None \<Rightarrow> None
      | Some (s1, Inl e) \<Rightarrow> Some (s1, Inl e)
      | Some (s1, Inr l) \<Rightarrow>
          (case resolve k c s1 right of
             None \<Rightarrow> None
           | Some (s2, Inl e) \<Rightarrow> Some (s2, Inl e)
           | Some (s2, Inr r) \<Rightarrow> Some (calcProduct s2 op l r)))"
| "calc_concat k c s [] resolvedArray =
     Some (new_node s, Inr (Some (CssConcatNode (Some resolvedArray))))"
| "calc_concat k c s (n # rest) resolvedArray =
     (case resolve k c s n of
        None \<Rightarrow> None
      | Some (s1, Inl e) \<Rightarrow> Some (s1, Inl e)
      | Some (s1, Inr None) \<Rightarrow> Some (s1, Inr None)
      | Some (s1, Inr (Some resolved)) \<Rightarrow> calc_concat k c s1 rest (resolvedArray @ [resolved]))"
| "calc_func k c s name [] dimensions resolvedArgs =
     Some (new_node s, Inr (Some (CssFuncNode name resolvedArgs None)))"
| "calc_func k c s name (n # rest) (Some (d # ds)) resolvedArgs =
     (case resolve k c (pushDimension d s) n of
        None \<Rightarrow> None
      | Some (s1, Inl e) \<Rightarrow> Some (s1, Inl e)
      | Some (s1, Inr None) \<Rightarrow> Some (popDimension s1, Inr None)
      | Some (s1, Inr (Some resolved)) \<Rightarrow>
          calc_func k c (popDimension s1) name rest (Some ds) (resolvedArgs @ [resolved]))"
| "calc_func k c s name (n # rest) None resolvedArgs =
     (case resolve k c s n of
        None \<Rightarrow> None
      | Some (s1, Inl e) \<Rightarrow> Some (s1, Inl e)
      | Some (s1, Inr None) \<Rightarrow> Some (s1, Inr None)
      | Some (s1, Inr (Some resolved)) \<Rightarrow>
          calc_func k c s1 name rest None (resolvedArgs @ [resolved]))"
| "calc_func k c s name (n # rest) (Some []) resolvedArgs =
     (case resolve k c s n of
        None \<Rightarrow> None
      | Some (s1, Inl e) \<Rightarrow> Some (s1, Inl e)
      | Some (s1, Inr None) \<Rightarrow> Some (s1, Inr None)
      | Some (s1, Inr (Some resolved)) \<Rightarrow>
          calc_func k c s1 name rest (Some []) (resolvedArgs @ [resolved]))"
  by pat_completeness auto

termination
  by (relation "measures
        [case_sum (case_sum (\<lambda>(k, c, s, n). k) (\<lambda>(k, c, s, n). k))
           (case_sum (\<lambda>(k, c, s, ns, acc). k) (\<lambda>(k, c, s, name, ns, ds, acc). k)),
         case_sum (case_sum (\<lambda>x. 0) (\<lambda>x. 2)) (\<lambda>x. Suc 0),
         case_sum (\<lambda>x. 0)
           (case_sum (\<lambda>(k, c, s, ns, acc). length ns)
              (\<lambda>(k, c, s, name, ns, ds, acc). length ns))]")
    auto

section \<open>The static method \<open>CssConcatNode.concat\<close>\<close>

text \<open>
  \<open>concat\<close> changes an object that its caller holds, so for this method the objects
  live in a heap and a node is a reference. An object is a \<open>CssConcatNode\<close>, whose
  field \<open>array_\<close> refers to an array, or an instance of another class, whose fields
  the method does not read. An array is a heap object of its own: a list of references to
  nodes. \<open>nextObject\<close> and \<open>nextArray\<close> are the references that the next \<open>new\<close> and
  the next array creation return.
\<close>

type_synonym ref = nat

datatype 'a object = ConcatObject ref | OtherObject 'a

record 'a heap =
  objects :: "ref \<rightharpoonup> 'a object"
  arrays :: "ref \<rightharpoonup> ref list"
  nextObject :: ref
  nextArray :: ref

text \<open>Every reference in use is older than the next one to be handed out.\<close>

definition heap_ok :: "'a heap \<Rightarrow> bool" where
  "heap_ok h = ((\<forall>r. objects h r \<noteq> None \<longrightarrow> r < nextObject h) \<and>
                (\<forall>r. arrays h r \<noteq> None \<longrightarrow> r < nextArray h))"

text \<open>A new array with the given elements: an array literal, or the result of \<open>Array.prototype.concat\<close>.\<close>

definition new_array :: "ref list \<Rightarrow> 'a heap \<Rightarrow> 'a heap \<times> ref" where
  "new_array elems h =
     (h\<lparr>arrays := (arrays h)(nextArray h \<mapsto> elems), nextArray := Suc (nextArray h)\<rparr>, nextArray h)"

text \<open>\<open>new CssConcatNode(array)\<close>: the object keeps the reference to the array it is given.\<close>

definition new_CssConcatNode :: "ref \<Rightarrow> 'a heap \<Rightarrow> 'a heap \<times> ref" where
  "new_CssConcatNode array h =
     (h\<lparr>objects := (objects h)(nextObject h \<mapsto> ConcatObject array),
        nextObject := Suc (nextObject h)\<rparr>, nextObject h)"

text \<open>The field \<open>array_\<close> of a \<open>CssConcatNode\<close>, and the elements of that array.\<close>

definition array_of :: "'a heap \<Rightarrow> ref \<Rightarrow> ref option" where
  "array_of h r = (case objects h r of Some (ConcatObject a) \<Rightarrow> Some a | _ \<Rightarrow> None)"

definition elements :: "'a heap \<Rightarrow> ref \<Rightarrow> ref list option" where
  "elements h r = do { a \<leftarrow> array_of h r; arrays h a }"

text \<open>
  \<open>CssConcatNode.concat(nodeOrSet, otherNodeOrSet)\<close>. The result is \<open>None\<close> when a
  reference that the method follows is not in the heap, which no reference of a running
  program is.
\<close>

definition concat' :: "'a heap \<Rightarrow> ref \<Rightarrow> ref \<Rightarrow> ('a heap \<times> ref) option" where
  "concat' h nodeOrSet otherNodeOrSet = do {
     x \<leftarrow> objects h nodeOrSet;
     y \<leftarrow> objects h otherNodeOrSet;
     let (h1, set') =
       (case x of
          ConcatObject a \<Rightarrow> (h, nodeOrSet)
        | OtherObject v \<Rightarrow>
            (let (h0, array) = new_array [nodeOrSet] h in new_CssConcatNode array h0));
     a \<leftarrow> array_of h1 set';
     xs \<leftarrow> arrays h1 a;
     (case y of
        ConcatObject b \<Rightarrow> do {
          ys \<leftarrow> arrays h1 b;
          let (h2, a') = new_array (xs @ ys) h1;
          Some (h2\<lparr>objects := (objects h2)(set' \<mapsto> ConcatObject a')\<rparr>, set')
        }
      | OtherObject v \<Rightarrow> Some (h1\<lparr>arrays := (arrays h1)(a \<mapsto> xs @ [otherNodeOrSet])\<rparr>, set'))
   }"

section \<open>Notions used in the properties\<close>

text \<open>
  The calls made on the context between a state and a later state of the same
  evaluation, and how many of them are \<open>pushDimension\<close> and \<open>popDimension\<close> calls.
\<close>

fun is_pushDimension :: "call \<Rightarrow> bool" where
  "is_pushDimension (PushDimension d) = True"
| "is_pushDimension x = False"

fun is_popDimension :: "call \<Rightarrow> bool" where
  "is_popDimension PopDimension = True"
| "is_popDimension x = False"

definition calls_between :: "estate \<Rightarrow> estate \<Rightarrow> call list" where
  "calls_between s s' = drop (length (trace s)) (trace s')"

definition pushDimension_calls :: "estate \<Rightarrow> estate \<Rightarrow> nat" where
  "pushDimension_calls s s' = length (filter is_pushDimension (calls_between s s'))"

definition popDimension_calls :: "estate \<Rightarrow> estate \<Rightarrow> nat" where
  "popDimension_calls s s' = length (filter is_popDimension (calls_between s s'))"

text \<open>
  From the state \<open>s\<close> to the later state \<open>s'\<close> the trace has only grown, as many
  \<open>pushDimension\<close> as \<open>popDimension\<close> calls were made, and the dimension stack is as
  it was.
\<close>

definition balanced :: "estate \<Rightarrow> estate \<Rightarrow> bool" where
  "balanced s s' =
     (take (length (trace s)) (trace s') = trace s \<and>
      pushDimension_calls s s' = popDimension_calls s s' \<and>
      dimStack s' = dimStack s)"

text \<open>A node of the tree is a \<open>CssCalcNode\<close>.\<close>

fun contains_CalcNode :: "node \<Rightarrow> bool" where
  "contains_CalcNode (CalcNode expr) = True"
| "contains_CalcNode (ConcatNode array) = list_ex contains_CalcNode array"
| "contains_CalcNode (FuncNode name args dimensions) = list_ex contains_CalcNode args"
| "contains_CalcNode (VarNode varName def) =
     (case def of Some d \<Rightarrow> contains_CalcNode d | None \<Rightarrow> False)"
| "contains_CalcNode (CalcSumNode left right op) =
     (contains_CalcNode left \<or> contains_CalcNode right)"
| "contains_CalcNode (CalcProductNode left right op) =
     (contains_CalcNode left \<or> contains_CalcNode right)"
| "contains_CalcNode (PassthroughNode css') = False"
| "contains_CalcNode (UrlNode url) = False"
| "contains_CalcNode (NumericNode x) = False"

section \<open>Sample values\<close>

text \<open>A context without variables, an element of 200 by 100 pixels, and a state with the dimension \<open>w\<close>.\<close>

definition sample_context :: CssContext where
  "sample_context =
     \<lparr>resolveUrl = (\<lambda>url. ''https://example.com/'' @ url),
      getVar = (\<lambda>varName. None),
      getCurrentFontSize = Fin 16,
      getRootFontSize = Fin 10,
      getViewportSize = \<lparr>width = Fin 800, height = Fin 600\<rparr>,
      getCurrentElementSize = \<lparr>width = Fin 200, height = Fin 100\<rparr>\<rparr>"

definition sample_state :: estate where
  "sample_state = \<lparr>dimStack = [''w''], trace = [], allocated = 0\<rparr>"

text \<open>
  A \<open>numberToString\<close> for the samples: \<open>Number::toString\<close> on \<open>NaN\<close>, the infinities,
  the zeros and the integers below \<open>10 ^ 21\<close> in absolute value, which it writes in
  decimal digits.
  On any other number it writes the integer part only, which \<open>Number::toString\<close> does not.
\<close>

function nat_to_string :: "nat \<Rightarrow> string" where
  "nat_to_string n =
     (if n < 10 then [char_of (48 + n)]
      else nat_to_string (n div 10) @ [char_of (48 + n mod 10)])"
  by pat_completeness auto

termination
  by (relation "measure (\<lambda>n. n)") auto

definition sample_numberToString :: "jsnum \<Rightarrow> string" where
  "sample_numberToString x =
     (case x of
        Fin r \<Rightarrow> (if r < 0 then ''-'' else []) @ nat_to_string (nat \<lfloor>\<bar>r\<bar>\<rfloor>)
      | NegZero \<Rightarrow> ''0''
      | PInf \<Rightarrow> ''Infinity''
      | NInf \<Rightarrow> ''-Infinity''
      | NaN \<Rightarrow> ''NaN'')"

text \<open>
  A heap with a \<open>CssConcatNode\<close> at 0 whose array, at 0, holds the node at 1; the node at
  1 is of another class; the \<open>CssConcatNode\<close> at 2 has the array at 1, which holds the
  node at 1 twice.
\<close>

definition sample_heap :: "unit heap" where
  "sample_heap =
     \<lparr>objects = [0 \<mapsto> ConcatObject 0, 1 \<mapsto> OtherObject (), 2 \<mapsto> ConcatObject 1],
      arrays = [0 \<mapsto> [1], 1 \<mapsto> [1, 1]],
      nextObject = 3,
      nextArray = 2\<rparr>"

text \<open>The sample heap after \<open>concat\<close> of the nodes at 0 and at 2.\<close>

definition sample_heap_concat :: "unit heap" where
  "sample_heap_concat =
     \<lparr>objects = [0 \<mapsto> ConcatObject 2, 1 \<mapsto> OtherObject (), 2 \<mapsto> ConcatObject 1],
      arrays = [0 \<mapsto> [1], 1 \<mapsto> [1, 1], 2 \<mapsto> [1, 1, 1]],
      nextObject = 3,
      nextArray = 3\<rparr>"

section \<open>Properties\<close>

subsection \<open>Auxiliary facts\<close>

lemma foldl_conj: "foldl (\<lambda>acc x. acc \<and> P x) b xs = (b \<and> list_all P xs)"
  by (induction xs arbitrary: b) auto

lemma isConst_ConcatNode: "isConst (ConcatNode array) = list_all isConst array"
  by (simp add: foldl_conj)

lemma isConst_FuncNode: "isConst (FuncNode name args dimensions) = list_all isConst args"
  by (simp add: foldl_conj)

lemma toLowerCase_px: "toLowerCase ''px'' = ''px''"
  by (simp add: toLowerCase_def lower_char_def)

text \<open>
  Rounding leaves an integer below \<open>2 ^ 53\<close> in absolute value as it is, and takes a
  number of \<open>2 ^ 1024 - 2 ^ 970\<close> or more in absolute value to an infinity.
\<close>

lemma round_half_even_int: "round_half_even (of_int n) = n"
  by (simp add: round_half_even_def)

lemma round_to_double_int:
  assumes "x \<in> \<int>" and "x \<noteq> 0" and "\<bar>x\<bar> < 2 ^ 53"
  shows "round_to_double x = Fin x"
proof -
  from assms(1) have "\<bar>x\<bar> \<in> \<int>"
    by (rule Ints_abs)
  then obtain n :: int where n: "\<bar>x\<bar> = of_int n"
    by (rule Ints_cases)
  from assms(2) have "0 < \<bar>x\<bar>"
    by simp
  then have n0: "0 < n"
    unfolding n by (simp only: of_int_0_less_iff)
  from assms(3) have "(of_int n :: real) < of_int (2 ^ 53)"
    unfolding n by (simp only: of_int_power of_int_numeral)
  then have n53: "n < 2 ^ 53"
    by (simp only: of_int_less_iff)
  define N where "N = n * 2 ^ 1074"
  have "\<bar>x\<bar> * 2 ^ 1074 = of_int N"
    unfolding n N_def by (simp only: of_int_mult of_int_power of_int_numeral)
  then have N: "\<lfloor>\<bar>x\<bar> * 2 ^ 1074\<rfloor> = N"
    by (simp only: floor_of_int)
  have "N < 2 ^ 53 * 2 ^ 1074"
    unfolding N_def using n53
    by (rule mult_strict_right_mono) (rule zero_less_power, rule zero_less_numeral)
  also have "(2::int) ^ 53 * 2 ^ 1074 = 2 ^ nat 1127"
    by (simp only: power_add [symmetric]) simp
  finally have "bitlen N \<le> 1127"
    by (simp only: bitlen_le_iff_power) simp
  define e where "e = max (- 1074) (bitlen N - 1127)"
  with \<open>bitlen N \<le> 1127\<close> have e: "- 1074 \<le> e" "e \<le> 0"
    by auto
  define k where "k = nat (- e)"
  have p: "pow2 e = 1 / 2 ^ k"
    using e by (auto simp: pow2_def k_def)
  have q: "\<bar>x\<bar> / pow2 e = of_int (n * 2 ^ k)"
    unfolding p n by simp
  have m: "round_half_even (\<bar>x\<bar> / pow2 e) = n * 2 ^ k"
    unfolding q by (rule round_half_even_int)
  have v: "of_int (n * 2 ^ k) * pow2 e = \<bar>x\<bar>"
    unfolding p n by simp
  have "\<bar>x\<bar> < 2 ^ 1024 - 2 ^ 970"
    using assms(3) by (rule less_trans) simp
  then have big: "\<not> (2 ^ 1024 - 2 ^ 970 \<le> \<bar>x\<bar>)"
    by simp
  have nz: "n * 2 ^ k \<noteq> 0"
    using n0 by simp
  have "round_to_double x = Fin ((if x < 0 then - 1 else 1) * \<bar>x\<bar>)"
    unfolding round_to_double_def Let_def N e_def [symmetric] m v
    using big nz by (simp only: if_False)
  then show ?thesis
    by (simp add: abs_if)
qed

lemma round_to_double_overflow:
  "2 ^ 1024 - 2 ^ 970 \<le> \<bar>x\<bar> \<Longrightarrow> round_to_double x = inf_of (x < 0)"
  by (simp only: round_to_double_def Let_def if_True)

lemma jsmul_commute: "jsmul a b = jsmul b a"
  by (cases a; cases b) (auto simp: mult.commute)

text \<open>Two products of finite numbers that overflow.\<close>

lemma jsmul_overflow: "jsmul (Fin (2 ^ 1023)) (Fin 2) = PInf"
proof -
  have "round_to_double (2 ^ 1023 * 2) = inf_of (2 ^ 1023 * 2 < (0::real))"
    by (rule round_to_double_overflow) simp
  then show ?thesis
    by (simp add: inf_of_def)
qed

lemma jsdiv_overflow: "jsdiv (Fin 1) (Fin (1 / 2 ^ 1074)) = PInf"
proof -
  have "round_to_double (1 / (1 / 2 ^ 1074)) = inf_of (1 / (1 / 2 ^ 1074) < (0::real))"
    by (rule round_to_double_overflow) simp
  then show ?thesis
    by (simp add: inf_of_def)
qed

lemma createSameUnits_fields:
  "type_of (createSameUnits x num) = type_of x \<and>
   units_of (createSameUnits x num) = toLowerCase (units_of x) \<and>
   num_of (createSameUnits x num) = num"
  by (cases x)
    (simp_all add: CssNumberNode_def CssPercentNode_def CssLengthNode_def CssAngleNode_def
      CssTimeNode_def toLowerCase_def lower_char_def)

text \<open>
  The constructors store units in lower case, and \<open>toLowerCase\<close> changes no string in
  lower case: \<open>createSameUnits\<close> keeps the unit of every node that a constructor made.
\<close>

lemma lower_char_idem: "lower_char (lower_char ch) = lower_char ch"
  by (auto simp: lower_char_def Let_def)

lemma toLowerCase_idem: "toLowerCase (toLowerCase str) = toLowerCase str"
  by (simp add: toLowerCase_def lower_char_idem)

lemma createSameUnits_units:
  "units_of x = toLowerCase (units_of x) \<Longrightarrow> units_of (createSameUnits x num) = units_of x"
  by (cases x)
    (simp_all add: CssNumberNode_def CssPercentNode_def CssLengthNode_def CssAngleNode_def
      CssTimeNode_def)

lemma new_node_inject: "new_node s = new_node t \<Longrightarrow> s = t"
  by (cases s; cases t) (simp add: new_node_def)

subsection \<open>The depth bound\<close>

text \<open>
  A result that is reached within a depth is reached within every greater depth, so
  an evaluation has at most one result.
\<close>

lemma fuel_Suc:
  "resolve k c s n = Some out \<Longrightarrow> resolve (Suc k) c s n = Some out"
  "calc k c s n = Some out \<Longrightarrow> calc (Suc k) c s n = Some out"
  "calc_concat k c s ns acc = Some out \<Longrightarrow> calc_concat (Suc k) c s ns acc = Some out"
  "calc_func k c s name ns ds acc = Some out \<Longrightarrow>
     calc_func (Suc k) c s name ns ds acc = Some out"
proof (induction k c s n and k c s n and k c s ns acc and k c s name ns ds acc
    arbitrary: out and out and out and out
    rule: resolve_calc_calc_concat_calc_func.induct)
  case (2 k c s n)
  then show ?case by (auto split: if_splits)
next
  case (8 k c s varName "def")
  then show ?case by (auto simp: Let_def simp del: resolve.simps split: option.splits)
next
  case (10 k c s left right op)
  from "10.prems" obtain s1 x where L: "resolve k c s left = Some (s1, x)"
    by (cases "resolve k c s left") auto
  have L': "resolve (Suc k) c s left = Some (s1, x)"
    by (rule "10.IH"(1) [OF L])
  show ?case
  proof (cases x)
    case (Inl e)
    with "10.prems" L L' show ?thesis by (auto simp del: resolve.simps)
  next
    case (Inr l)
    with "10.prems" L obtain s2 y where R: "resolve k c s1 right = Some (s2, y)"
      by (cases "resolve k c s1 right") auto
    from L Inr have La: "resolve k c s left = Some (s1, Inr l)" by simp
    have R': "resolve (Suc k) c s1 right = Some (s2, y)"
      by (rule "10.IH"(2) [OF La refl refl R])
    from "10.prems" L L' R R' Inr show ?thesis
      by (auto simp del: resolve.simps split: sum.splits)
  qed
next
  case (11 k c s left right op)
  from "11.prems" obtain s1 x where L: "resolve k c s left = Some (s1, x)"
    by (cases "resolve k c s left") auto
  have L': "resolve (Suc k) c s left = Some (s1, x)"
    by (rule "11.IH"(1) [OF L])
  show ?case
  proof (cases x)
    case (Inl e)
    with "11.prems" L L' show ?thesis by (auto simp del: resolve.simps)
  next
    case (Inr l)
    with "11.prems" L obtain s2 y where R: "resolve k c s1 right = Some (s2, y)"
      by (cases "resolve k c s1 right") auto
    from L Inr have La: "resolve k c s left = Some (s1, Inr l)" by simp
    have R': "resolve (Suc k) c s1 right = Some (s2, y)"
      by (rule "11.IH"(2) [OF La refl refl R])
    from "11.prems" L L' R R' Inr show ?thesis
      by (auto simp del: resolve.simps split: sum.splits)
  qed
next
  case (13 k c s n rest resolvedArray)
  from "13.prems" obtain s1 x where L: "resolve k c s n = Some (s1, x)"
    by (cases "resolve k c s n") auto
  have L': "resolve (Suc k) c s n = Some (s1, x)"
    by (rule "13.IH"(1) [OF L])
  show ?case
  proof (cases x)
    case (Inl e)
    with "13.prems" L L' show ?thesis by (auto simp del: resolve.simps)
  next
    case (Inr r)
    show ?thesis
    proof (cases r)
      case None
      with "13.prems" L L' Inr show ?thesis by (auto simp del: resolve.simps)
    next
      case (Some y)
      with L Inr have La: "resolve k c s n = Some (s1, Inr (Some y))" by simp
      with "13.prems" have C: "calc_concat k c s1 rest (resolvedArray @ [y]) = Some out"
        by simp
      have "calc_concat (Suc k) c s1 rest (resolvedArray @ [y]) = Some out"
        by (rule "13.IH"(2) [OF La refl refl refl C])
      with L' Inr Some show ?thesis by (auto simp del: resolve.simps)
    qed
  qed
next
  case (15 k c s name n rest d ds resolvedArgs)
  from "15.prems" obtain s1 x where L: "resolve k c (pushDimension d s) n = Some (s1, x)"
    by (cases "resolve k c (pushDimension d s) n") auto
  have L': "resolve (Suc k) c (pushDimension d s) n = Some (s1, x)"
    by (rule "15.IH"(1) [OF L])
  show ?case
  proof (cases x)
    case (Inl e)
    with "15.prems" L L' show ?thesis by (auto simp del: resolve.simps)
  next
    case (Inr r)
    show ?thesis
    proof (cases r)
      case None
      with "15.prems" L L' Inr show ?thesis by (auto simp del: resolve.simps)
    next
      case (Some y)
      with L Inr have La: "resolve k c (pushDimension d s) n = Some (s1, Inr (Some y))"
        by simp
      with "15.prems" have C:
        "calc_func k c (popDimension s1) name rest (Some ds) (resolvedArgs @ [y]) = Some out"
        by simp
      have "calc_func (Suc k) c (popDimension s1) name rest (Some ds) (resolvedArgs @ [y]) =
          Some out"
        by (rule "15.IH"(2) [OF La refl refl refl C])
      with L' Inr Some show ?thesis by (auto simp del: resolve.simps)
    qed
  qed
next
  case (16 k c s name n rest resolvedArgs)
  from "16.prems" obtain s1 x where L: "resolve k c s n = Some (s1, x)"
    by (cases "resolve k c s n") auto
  have L': "resolve (Suc k) c s n = Some (s1, x)"
    by (rule "16.IH"(1) [OF L])
  show ?case
  proof (cases x)
    case (Inl e)
    with "16.prems" L L' show ?thesis by (auto simp del: resolve.simps)
  next
    case (Inr r)
    show ?thesis
    proof (cases r)
      case None
      with "16.prems" L L' Inr show ?thesis by (auto simp del: resolve.simps)
    next
      case (Some y)
      with L Inr have La: "resolve k c s n = Some (s1, Inr (Some y))" by simp
      with "16.prems" have C:
        "calc_func k c s1 name rest None (resolvedArgs @ [y]) = Some out"
        by simp
      have "calc_func (Suc k) c s1 name rest None (resolvedArgs @ [y]) = Some out"
        by (rule "16.IH"(2) [OF La refl refl refl C])
      with L' Inr Some show ?thesis by (auto simp del: resolve.simps)
    qed
  qed
next
  case (17 k c s name n rest resolvedArgs)
  from "17.prems" obtain s1 x where L: "resolve k c s n = Some (s1, x)"
    by (cases "resolve k c s n") auto
  have L': "resolve (Suc k) c s n = Some (s1, x)"
    by (rule "17.IH"(1) [OF L])
  show ?case
  proof (cases x)
    case (Inl e)
    with "17.prems" L L' show ?thesis by (auto simp del: resolve.simps)
  next
    case (Inr r)
    show ?thesis
    proof (cases r)
      case None
      with "17.prems" L L' Inr show ?thesis by (auto simp del: resolve.simps)
    next
      case (Some y)
      with L Inr have La: "resolve k c s n = Some (s1, Inr (Some y))" by simp
      with "17.prems" have C:
        "calc_func k c s1 name rest (Some []) (resolvedArgs @ [y]) = Some out"
        by simp
      have "calc_func (Suc k) c s1 name rest (Some []) (resolvedArgs @ [y]) = Some out"
        by (rule "17.IH"(2) [OF La refl refl refl C])
      with L' Inr Some show ?thesis by (auto simp del: resolve.simps)
    qed
  qed
qed auto

lemma fuel_mono: "resolve k c s n = Some out \<Longrightarrow> resolve (k + j) c s n = Some out"
  by (induction j) (auto simp del: resolve.simps dest: fuel_Suc(1))

lemma resolve_deterministic:
  assumes "resolve k c s n = Some out" and "resolve k' c s n = Some out'"
  shows "out = out'"
proof -
  have "resolve (k + k') c s n = Some out"
    using assms(1) by (rule fuel_mono)
  moreover have "resolve (k' + k) c s n = Some out'"
    using assms(2) by (rule fuel_mono)
  ultimately show ?thesis
    by (simp add: add.commute)
qed

subsection \<open>Percent resolution in a sum\<close>

text \<open>
  Claim C1. In every context whose current element is 200 wide and 100 high, and in
  every state whose dimension stack has \<open>w\<close> on top, \<open>calcPercent\<close> of the length side
  for 50 percent is \<open>Length(100, 'px')\<close>, and resolving
  \<open>CalcSum(Length(50, 'px'), Percent(50), '+')\<close> with a depth of two or more returns
  \<open>Length(150, 'px')\<close>. The evaluation asks the context for the dimension and for the
  element size, in this order, and creates two nodes.
\<close>

theorem calcSum_length_percent:
  assumes "getCurrentElementSize c = \<lparr>width = Fin 200, height = Fin 100\<rparr>"
    and "dimStack s = ''w'' # rest"
  shows "calcPercent c s (CssLengthNode (Fin 50) ''px'') (Fin 50) =
           (new_node (called GetCurrentElementSize (called GetDimension s)),
            Inr (CssLengthNode (Fin 100) ''px'')) \<and>
         resolve (Suc (Suc k)) c s
           (CssCalcSumNode (NumericNode (CssLengthNode (Fin 50) ''px''))
              (NumericNode (CssPercentNode (Fin 50))) ''+'') =
           Some (new_node (new_node (called GetCurrentElementSize (called GetDimension s))),
                 Inr (Some (NumericNode (CssLengthNode (Fin 150) ''px''))))"
  using assms
  by (simp add: CssCalcSumNode_def CssLengthNode_def CssPercentNode_def toLowerCase_px
      calcSum_def numeric_sides_def sum_percent_def sum_norm_def getDimension_def called_def
      round_to_double_int)

theorem calcSum_length_percent_witness:
  "getCurrentElementSize sample_context = \<lparr>width = Fin 200, height = Fin 100\<rparr> \<and>
   dimStack sample_state = ''w'' # [] \<and>
   resolve (Suc (Suc 0)) sample_context sample_state
     (CssCalcSumNode (NumericNode (CssLengthNode (Fin 50) ''px''))
        (NumericNode (CssPercentNode (Fin 50))) ''+'') =
     Some (\<lparr>dimStack = [''w''], trace = [GetDimension, GetCurrentElementSize], allocated = 2\<rparr>,
           Inr (Some (NumericNode (LengthNode (Fin 150) ''px''))))"
proof -
  have a: "getCurrentElementSize sample_context = \<lparr>width = Fin 200, height = Fin 100\<rparr>"
    by (simp add: sample_context_def)
  have b: "dimStack sample_state = ''w'' # []"
    by (simp add: sample_state_def)
  show ?thesis
    using a b calcSum_length_percent [OF a b, of 0]
    by (simp add: sample_state_def new_node_def called_def CssLengthNode_def toLowerCase_px)
qed

subsection \<open>\<open>resolve\<close> on constant and on variable nodes\<close>

text \<open>
  Claim C2. For every node, of any class, every context and every state: when the node
  is constant, \<open>resolve\<close> returns the node itself, calls nothing on the context and
  creates no node (the state is as before, so the result is no copy); when it is not,
  \<open>resolve\<close> is \<open>calc\<close>.
\<close>

theorem resolve_const_or_calc:
  "(isConst n \<longrightarrow> resolve (Suc k) c s n = Some (s, Inr (Some n))) \<and>
   (\<not> isConst n \<longrightarrow> resolve (Suc k) c s n = calc k c s n)"
  by simp

theorem resolve_const_or_calc_witness:
  "isConst (NumericNode (CssLengthNode (Fin 10) ''px'')) \<and>
   resolve (Suc 0) sample_context sample_state (NumericNode (CssLengthNode (Fin 10) ''px'')) =
     Some (sample_state, Inr (Some (NumericNode (CssLengthNode (Fin 10) ''px'')))) \<and>
   \<not> isConst (CssCalcNode (NumericNode (CssLengthNode (Fin 10) ''px''))) \<and>
   resolve (Suc (Suc 0)) sample_context sample_state
     (CssCalcNode (NumericNode (CssLengthNode (Fin 10) ''px''))) =
     calc (Suc 0) sample_context sample_state
       (CssCalcNode (NumericNode (CssLengthNode (Fin 10) ''px'')))"
  using resolve_const_or_calc [of "NumericNode (CssLengthNode (Fin 10) ''px'')" 0
      sample_context sample_state]
    resolve_const_or_calc [of "CssCalcNode (NumericNode (CssLengthNode (Fin 10) ''px''))" "Suc 0"
      sample_context sample_state]
  by (simp add: CssCalcNode_def)

subsection \<open>Multiplication\<close>

text \<open>
  Claim C3, as amended. When the two sides of a \<open>CalcProduct\<close> with the operator \<open>*\<close>
  resolve to numeric nodes, at least one of them has to be a \<open>CssNumberNode\<close>: when
  neither is, the evaluation throws. Otherwise the left side is the multiplier when it
  is a \<open>CssNumberNode\<close> and the right side is when it is not; the magnitude is the
  product of the two magnitudes, as doubles. When it is finite the result is
  \<open>createSameUnits\<close> of the other side for it, which has that side's class, its unit (in
  lower case, as every unit is stored) and the product as its magnitude; when it is not
  finite, as when the product overflows, the result is \<open>null\<close>.
\<close>

theorem calcProduct_times:
  assumes "resolve k c s left = Some (s', Inr (Some (NumericNode a)))"
    and "resolve k c s' right = Some (s'', Inr (Some (NumericNode b)))"
  shows "calc k c s (CalcProductNode left right ''*'') =
           (if \<not> instanceof_CssNumberNode a \<and> \<not> instanceof_CssNumberNode b then
              Some (s'', Inl (Error ''one of sides in multiplication must be a number''))
            else
              (let base = (if instanceof_CssNumberNode a then b else a);
                   num = jsmul (num_of a) (num_of b)
               in if isFinite num then
                    Some (new_node s'', Inr (Some (NumericNode (createSameUnits base num))))
                  else Some (s'', Inr None))) \<and>
         type_of (createSameUnits x num') = type_of x \<and>
         units_of (createSameUnits x num') = toLowerCase (units_of x) \<and>
         num_of (createSameUnits x num') = num'"
  using assms
  by (simp add: calcProduct_def numeric_sides_def product_operands_def createSameUnits_fields
      jsmul_commute Let_def)

theorem calcProduct_times_witness:
  "resolve (Suc 0) sample_context sample_state (NumericNode (LengthNode (Fin 10) ''px'')) =
     Some (sample_state, Inr (Some (NumericNode (LengthNode (Fin 10) ''px'')))) \<and>
   resolve (Suc 0) sample_context sample_state (NumericNode (NumberNode (Fin 3))) =
     Some (sample_state, Inr (Some (NumericNode (NumberNode (Fin 3))))) \<and>
   calc (Suc 0) sample_context sample_state
     (CalcProductNode (NumericNode (LengthNode (Fin 10) ''px''))
        (NumericNode (NumberNode (Fin 3))) ''*'') =
     Some (new_node sample_state, Inr (Some (NumericNode (LengthNode (Fin 30) ''px'')))) \<and>
   calc (Suc 0) sample_context sample_state
     (CalcProductNode (NumericNode (LengthNode (Fin 10) ''px''))
        (NumericNode (LengthNode (Fin 10) ''px'')) ''*'') =
     Some (sample_state, Inl (Error ''one of sides in multiplication must be a number'')) \<and>
   resolve (Suc 0) sample_context sample_state (NumericNode (LengthNode (Fin (2 ^ 1023)) ''px'')) =
     Some (sample_state, Inr (Some (NumericNode (LengthNode (Fin (2 ^ 1023)) ''px'')))) \<and>
   resolve (Suc 0) sample_context sample_state (NumericNode (NumberNode (Fin 2))) =
     Some (sample_state, Inr (Some (NumericNode (NumberNode (Fin 2))))) \<and>
   calc (Suc 0) sample_context sample_state
     (CalcProductNode (NumericNode (LengthNode (Fin (2 ^ 1023)) ''px''))
        (NumericNode (NumberNode (Fin 2))) ''*'') =
     Some (sample_state, Inr None)"
proof -
  have l: "resolve (Suc 0) sample_context sample_state (NumericNode (LengthNode (Fin 10) ''px'')) =
      Some (sample_state, Inr (Some (NumericNode (LengthNode (Fin 10) ''px''))))"
    by simp
  have n: "resolve (Suc 0) sample_context sample_state (NumericNode (NumberNode (Fin 3))) =
      Some (sample_state, Inr (Some (NumericNode (NumberNode (Fin 3)))))"
    by simp
  have h: "resolve (Suc 0) sample_context sample_state
      (NumericNode (LengthNode (Fin (2 ^ 1023)) ''px'')) =
      Some (sample_state, Inr (Some (NumericNode (LengthNode (Fin (2 ^ 1023)) ''px''))))"
    by (simp only: resolve.simps isConst.simps if_True)
  have t: "resolve (Suc 0) sample_context sample_state (NumericNode (NumberNode (Fin 2))) =
      Some (sample_state, Inr (Some (NumericNode (NumberNode (Fin 2)))))"
    by simp
  have a: "calc (Suc 0) sample_context sample_state
     (CalcProductNode (NumericNode (LengthNode (Fin 10) ''px''))
        (NumericNode (NumberNode (Fin 3))) ''*'') =
     Some (new_node sample_state, Inr (Some (NumericNode (LengthNode (Fin 30) ''px''))))"
    using calcProduct_times [OF l n]
    by (simp add: CssLengthNode_def toLowerCase_px round_to_double_int)
  have b: "calc (Suc 0) sample_context sample_state
     (CalcProductNode (NumericNode (LengthNode (Fin 10) ''px''))
        (NumericNode (LengthNode (Fin 10) ''px'')) ''*'') =
     Some (sample_state, Inl (Error ''one of sides in multiplication must be a number''))"
    using calcProduct_times [OF l l] by simp
  have o: "calc (Suc 0) sample_context sample_state
     (CalcProductNode (NumericNode (LengthNode (Fin (2 ^ 1023)) ''px''))
        (NumericNode (NumberNode (Fin 2))) ''*'') =
     Some (sample_state, Inr None)"
    using calcProduct_times [OF h t, THEN conjunct1]
    by (simp only: instanceof_CssNumberNode.simps num_of.simps simp_thms if_False if_True
        Let_def jsmul_overflow isFinite.simps)
  from l n a b h t o show ?thesis
    by (simp only: simp_thms)
qed

text \<open>
  Claim C3 as stated fails where both sides are \<open>CssNumberNode\<close>s: \<open>2 * 3\<close> is no error
  but the number 6.
\<close>

theorem calcProduct_both_numbers_counterexample:
  "resolve (Suc (Suc 0)) sample_context sample_state
     (CssCalcProductNode (NumericNode (CssNumberNode (Fin 2)))
        (NumericNode (CssNumberNode (Fin 3))) ''*'') =
     Some (new_node sample_state, Inr (Some (NumericNode (CssNumberNode (Fin 6)))))"
  by (simp add: CssCalcProductNode_def CssNumberNode_def calcProduct_def numeric_sides_def
      product_operands_def round_to_double_int)

subsection \<open>A product that is not finite\<close>

text \<open>
  Claim C4. Resolving \<open>CalcProduct(Length(10, 'px'), Count(0), '/')\<close> with a depth of two
  or more returns \<open>null\<close> and throws nothing. In general, when the two sides resolve to
  numeric nodes for which the method finds its \<open>base\<close> and \<open>multi\<close>, and the magnitude
  \<open>base.num_ * multi\<close>, a product of doubles, is not finite, the evaluation returns
  \<open>null\<close>: so it does for a division by zero, for a divisor so small that its inverse
  overflows, and for a product that overflows.
\<close>

theorem calcProduct_not_finite_null:
  "resolve (Suc (Suc k)) c s
     (CssCalcProductNode (NumericNode (CssLengthNode (Fin 10) ''px''))
        (NumericNode (CssNumberNode (Fin 0))) ''/'') = Some (s, Inr None) \<and>
   (resolve k' c s left = Some (s', Inr (Some (NumericNode a))) \<longrightarrow>
    resolve k' c s' right = Some (s'', Inr (Some (NumericNode b))) \<longrightarrow>
    product_operands op a b = Inr (base, multi) \<longrightarrow>
    \<not> isFinite (jsmul (num_of base) multi) \<longrightarrow>
    calc k' c s (CalcProductNode left right op) = Some (s'', Inr None))"
  by (simp add: CssCalcProductNode_def CssLengthNode_def CssNumberNode_def calcProduct_def
      numeric_sides_def product_operands_def inf_of_def)

theorem calcProduct_not_finite_null_witness:
  "product_operands ''/'' (LengthNode (Fin 10) ''px'') (NumberNode (Fin 0)) =
     Inr (LengthNode (Fin 10) ''px'', PInf) \<and>
   \<not> isFinite (jsmul (num_of (LengthNode (Fin 10) ''px'')) PInf) \<and>
   calc (Suc 0) sample_context sample_state
     (CalcProductNode (NumericNode (LengthNode (Fin 10) ''px''))
        (NumericNode (NumberNode (Fin 0))) ''/'') =
     Some (sample_state, Inr None) \<and>
   product_operands ''/'' (LengthNode (Fin 10) ''px'') (NumberNode (Fin (1 / 2 ^ 1074))) =
     Inr (LengthNode (Fin 10) ''px'', PInf) \<and>
   calc (Suc 0) sample_context sample_state
     (CalcProductNode (NumericNode (LengthNode (Fin 10) ''px''))
        (NumericNode (NumberNode (Fin (1 / 2 ^ 1074)))) ''/'') =
     Some (sample_state, Inr None) \<and>
   product_operands ''*'' (LengthNode (Fin (2 ^ 1023)) ''px'') (NumberNode (Fin 2)) =
     Inr (LengthNode (Fin (2 ^ 1023)) ''px'', Fin 2) \<and>
   \<not> isFinite (jsmul (num_of (LengthNode (Fin (2 ^ 1023)) ''px'')) (Fin 2)) \<and>
   calc (Suc 0) sample_context sample_state
     (CalcProductNode (NumericNode (LengthNode (Fin (2 ^ 1023)) ''px''))
        (NumericNode (NumberNode (Fin 2))) ''*'') =
     Some (sample_state, Inr None)"
proof -
  have r: "resolve (Suc 0) sample_context sample_state (NumericNode x) =
      Some (sample_state, Inr (Some (NumericNode x)))" for x
    by simp
  have p0: "product_operands ''/'' (LengthNode (Fin 10) ''px'') (NumberNode (Fin 0)) =
      Inr (LengthNode (Fin 10) ''px'', PInf)"
    by (simp add: product_operands_def inf_of_def)
  have p1: "product_operands ''/'' (LengthNode (Fin 10) ''px'') (NumberNode (Fin (1 / 2 ^ 1074))) =
      Inr (LengthNode (Fin 10) ''px'', PInf)"
    by (simp only: product_operands_def instanceof_CssNumberNode.simps num_of.simps
        jsdiv_overflow) simp
  have p2: "product_operands ''*'' (LengthNode (Fin (2 ^ 1023)) ''px'') (NumberNode (Fin 2)) =
      Inr (LengthNode (Fin (2 ^ 1023)) ''px'', Fin 2)"
    by (simp only: product_operands_def instanceof_CssNumberNode.simps num_of.simps) simp
  have f0: "\<not> isFinite (jsmul (num_of (LengthNode (Fin 10) ''px'')) PInf)"
    by (simp add: inf_of_def)
  have f2: "\<not> isFinite (jsmul (num_of (LengthNode (Fin (2 ^ 1023)) ''px'')) (Fin 2))"
    by (simp only: num_of.simps jsmul_overflow isFinite.simps simp_thms)
  note g = calcProduct_not_finite_null [where k' = "Suc 0" and c = sample_context
      and s = sample_state and s' = sample_state and s'' = sample_state, THEN conjunct2,
      rule_format, OF r r]
  from p0 f0 p1 p2 f2 g [OF p0 f0] g [OF p1 f0] g [OF p2 f2] show ?thesis
    by (simp only: simp_thms)
qed

subsection \<open>Normalization of units\<close>

text \<open>
  Claim C5. For a length with one of the units \<open>px\<close>, \<open>em\<close>, \<open>rem\<close>, \<open>vw\<close>, \<open>vh\<close>,
  \<open>vmin\<close>, \<open>vmax\<close>, an angle with one of \<open>rad\<close>, \<open>deg\<close>, \<open>grad\<close>, and a time with one
  of \<open>ms\<close>, \<open>s\<close>, \<open>norm\<close> throws nothing and returns a node of the same class with the
  unit \<open>px\<close>, \<open>rad\<close> and \<open>ms\<close>. On a node that has this unit already, \<open>norm\<close> returns the
  node itself and leaves the state as it was.
\<close>

theorem norm_canonical_units:
  "(u \<in> {''px'', ''em'', ''rem'', ''vw'', ''vh'', ''vmin'', ''vmax''} \<longrightarrow>
      (\<exists>s' n'. norm' c s (LengthNode n u) = (s', Inr (LengthNode n' ''px'')))) \<and>
   (u \<in> {''rad'', ''deg'', ''grad''} \<longrightarrow>
      (\<exists>s' n'. norm' c s (AngleNode n u) = (s', Inr (AngleNode n' ''rad'')))) \<and>
   (u \<in> {''ms'', ''s''} \<longrightarrow>
      (\<exists>s' n'. norm' c s (TimeNode n u) = (s', Inr (TimeNode n' ''ms'')))) \<and>
   norm' c s (LengthNode n ''px'') = (s, Inr (LengthNode n ''px'')) \<and>
   norm' c s (AngleNode n ''rad'') = (s, Inr (AngleNode n ''rad'')) \<and>
   norm' c s (TimeNode n ''ms'') = (s, Inr (TimeNode n ''ms''))"
  by (auto simp: CssLengthNode_def CssAngleNode_def CssTimeNode_def toLowerCase_def
      lower_char_def Let_def)

theorem norm_canonical_units_witness:
  "''vmin'' \<in> {''px'', ''em'', ''rem'', ''vw'', ''vh'', ''vmin'', ''vmax''} \<and>
   (\<exists>s' n'. norm' sample_context sample_state (LengthNode (Fin 50) ''vmin'') =
      (s', Inr (LengthNode n' ''px''))) \<and>
   norm' sample_context sample_state (LengthNode (Fin 50) ''vmin'') =
      (new_node (called GetViewportSize sample_state), Inr (LengthNode (Fin 300) ''px'')) \<and>
   ''deg'' \<in> {''rad'', ''deg'', ''grad''} \<and>
   (\<exists>s' n'. norm' sample_context sample_state (AngleNode (Fin 180) ''deg'') =
      (s', Inr (AngleNode n' ''rad''))) \<and>
   ''s'' \<in> {''ms'', ''s''} \<and>
   (\<exists>s' n'. norm' sample_context sample_state (TimeNode (Fin 2) ''s'') =
      (s', Inr (TimeNode n' ''ms''))) \<and>
   norm' sample_context sample_state (TimeNode (Fin 2) ''s'') =
      (new_node sample_state, Inr (TimeNode (Fin 2000) ''ms''))"
  using norm_canonical_units [where u = "''vmin''" and c = sample_context and s = sample_state
      and n = "Fin 50"]
    norm_canonical_units [where u = "''deg''" and c = sample_context and s = sample_state
      and n = "Fin 180"]
    norm_canonical_units [where u = "''s''" and c = sample_context and s = sample_state
      and n = "Fin 2"]
  by (simp add: sample_context_def CssLengthNode_def CssTimeNode_def toLowerCase_def
      lower_char_def Math_min_def round_to_double_int)

subsection \<open>A \<open>null\<close> element of a concatenation\<close>

lemma calc_concat_null:
  "calc_concat k c s pre acc = Some (new_node s1, Inr (Some r)) \<Longrightarrow>
   resolve k c s1 x = Some (s2, Inr None) \<Longrightarrow>
   calc_concat k c s (pre @ x # post) acc = Some (s2, Inr None)"
proof (induction pre arbitrary: s acc)
  case Nil
  then show ?case by (auto dest: new_node_inject)
next
  case (Cons p ps)
  then show ?case
    by (auto split: option.splits sum.splits)
qed

text \<open>
  Claim C6. For every constant node \<open>A\<close> and every context without a value for
  \<open>--missing\<close>, resolving \<open>Concat([A, VarRef('--missing')])\<close>, the reference without a
  default, with a depth of two or more returns \<open>null\<close>, after one \<open>getVar\<close> call. In
  general, when the elements before an element resolve to nodes (the loop over them
  alone ends in a new node, from the state \<open>s'\<close>) and that element resolves to \<open>null\<close>,
  the concatenation evaluates to \<open>null\<close>, whatever follows the element.
\<close>

theorem concat_missing_var_null:
  "(isConst A \<longrightarrow> getVar c ''--missing'' = None \<longrightarrow>
      resolve (Suc (Suc k)) c s (CssConcatNode (Some [A, CssVarNode ''--missing'' None])) =
        Some (called (GetVar ''--missing'') s, Inr None)) \<and>
   (calc_concat k' c s pre [] = Some (new_node s', Inr (Some r)) \<longrightarrow>
    resolve k' c s' x = Some (s'', Inr None) \<longrightarrow>
      calc k' c s (ConcatNode (pre @ x # post)) = Some (s'', Inr None))"
  by (auto simp: CssConcatNode_def CssVarNode_def isConst_ConcatNode dest: calc_concat_null)

theorem concat_missing_var_null_witness:
  "isConst (PassthroughNode ''1s'') \<and> getVar sample_context ''--missing'' = None \<and>
   resolve (Suc (Suc 0)) sample_context sample_state
     (CssConcatNode (Some [PassthroughNode ''1s'', CssVarNode ''--missing'' None])) =
     Some (\<lparr>dimStack = [''w''], trace = [GetVar ''--missing''], allocated = 0\<rparr>, Inr None) \<and>
   calc_concat (Suc 0) sample_context sample_state [PassthroughNode ''1s''] [] =
     Some (new_node sample_state, Inr (Some (ConcatNode [PassthroughNode ''1s'']))) \<and>
   resolve (Suc 0) sample_context sample_state (VarNode ''--missing'' None) =
     Some (called (GetVar ''--missing'') sample_state, Inr None) \<and>
   calc (Suc 0) sample_context sample_state
     (ConcatNode ([PassthroughNode ''1s''] @ VarNode ''--missing'' None #
        [NumericNode (NumberNode (Fin 1))])) =
     Some (called (GetVar ''--missing'') sample_state, Inr None)"
  using concat_missing_var_null [where A = "PassthroughNode ''1s''" and c = sample_context
      and k = 0 and s = sample_state and k' = "Suc 0" and pre = "[PassthroughNode ''1s'']"
      and s' = sample_state and r = "ConcatNode [PassthroughNode ''1s'']"
      and x = "VarNode ''--missing'' None" and s'' = "called (GetVar ''--missing'') sample_state"
      and post = "[NumericNode (NumberNode (Fin 1))]"]
  by (simp add: sample_context_def sample_state_def called_def CssConcatNode_def)

subsection \<open>The dimension stack\<close>

lemma balanced_iff:
  "balanced s s' \<longleftrightarrow>
     (\<exists>t. trace s' = trace s @ t \<and>
          length (filter is_pushDimension t) = length (filter is_popDimension t) \<and>
          dimStack s' = dimStack s)"
proof
  assume b: "balanced s s'"
  then have "trace s' = trace s @ drop (length (trace s)) (trace s')"
    by (metis append_take_drop_id balanced_def)
  with b show "\<exists>t. trace s' = trace s @ t \<and>
      length (filter is_pushDimension t) = length (filter is_popDimension t) \<and>
      dimStack s' = dimStack s"
    unfolding balanced_def pushDimension_calls_def popDimension_calls_def calls_between_def
    by blast
next
  assume "\<exists>t. trace s' = trace s @ t \<and>
      length (filter is_pushDimension t) = length (filter is_popDimension t) \<and>
      dimStack s' = dimStack s"
  then show "balanced s s'"
    by (auto simp: balanced_def pushDimension_calls_def popDimension_calls_def calls_between_def)
qed

lemma balanced_refl: "balanced s s"
  by (simp add: balanced_iff)

lemma balanced_trans: "balanced s s1 \<Longrightarrow> balanced s1 s2 \<Longrightarrow> balanced s s2"
  by (auto simp: balanced_iff)

lemma balanced_called:
  "\<not> is_pushDimension x \<Longrightarrow> \<not> is_popDimension x \<Longrightarrow> balanced s (called x s)"
  by (simp add: balanced_iff called_def)

lemma balanced_new_node: "balanced s (new_node s)"
  by (simp add: balanced_iff new_node_def)

lemma balanced_push_pop: "balanced (pushDimension d s) s1 \<Longrightarrow> balanced s (popDimension s1)"
  by (auto simp: balanced_iff pushDimension_def popDimension_def called_def)

lemma balanced_step: "balanced s s1 \<Longrightarrow> balanced s1 s2 \<Longrightarrow> balanced s2 s3 \<Longrightarrow> balanced s s3"
  by (blast intro: balanced_trans)

lemma norm_balanced: "norm' c s x = (s', r) \<Longrightarrow> balanced s s'"
  by (cases x)
    (auto simp: Let_def balanced_refl split: if_splits
      intro!: balanced_trans [OF balanced_called balanced_new_node] balanced_new_node)

lemma calcPercent_balanced: "calcPercent c s x p = (s', r) \<Longrightarrow> balanced s s'"
  by (cases x)
    (auto simp: Let_def getDimension_def balanced_refl
      intro!: balanced_step [OF balanced_called balanced_called balanced_new_node])

lemma sum_percent_balanced: "sum_percent c s l r = (s', x) \<Longrightarrow> balanced s s'"
  by (auto simp: sum_percent_def balanced_refl split: if_splits prod.splits sum.splits
      dest: calcPercent_balanced)

lemma sum_norm_balanced: "sum_norm c s l r = (s', x) \<Longrightarrow> balanced s s'"
  by (auto simp: sum_norm_def balanced_refl split: if_splits prod.splits sum.splits
      dest: norm_balanced intro: balanced_trans)

lemma calcSum_balanced: "calcSum c s op l r = (s', x) \<Longrightarrow> balanced s s'"
  by (auto simp: calcSum_def balanced_refl Let_def split: prod.splits sum.splits option.splits
      dest!: sum_percent_balanced sum_norm_balanced
      intro: balanced_trans balanced_step [OF _ _ balanced_new_node])

lemma calcProduct_balanced: "calcProduct s op l r = (s', x) \<Longrightarrow> balanced s s'"
  by (auto simp: calcProduct_def balanced_refl balanced_new_node Let_def
      split: prod.splits sum.splits option.splits if_splits)

text \<open>Every evaluation that does not throw is balanced.\<close>

lemma evaluation_balanced:
  "resolve k c s n = Some (s', Inr r) \<Longrightarrow> balanced s s'"
  "calc k c s n = Some (s', Inr r) \<Longrightarrow> balanced s s'"
  "calc_concat k c s ns acc = Some (s', Inr r) \<Longrightarrow> balanced s s'"
  "calc_func k c s name ns ds acc = Some (s', Inr r) \<Longrightarrow> balanced s s'"
proof (induction k c s n and k c s n and k c s ns acc and k c s name ns ds acc
    arbitrary: s' r and s' r and s' r and s' r
    rule: resolve_calc_calc_concat_calc_func.induct)
  case (2 k c s n)
  then show ?case by (auto simp: balanced_refl split: if_splits)
next
  case (6 k c s url)
  then show ?case
    by (auto simp: Let_def intro!: balanced_trans [OF balanced_called balanced_new_node])
next
  case (8 k c s varName "def")
  have a: "balanced s (called (GetVar varName) s)"
    by (simp add: balanced_called)
  from 8 show ?case
    by (auto simp: Let_def a split: option.splits intro: balanced_trans [OF a])
next
  case (10 k c s left right op)
  from "10.prems" obtain s1 l s2 x where
    L: "resolve k c s left = Some (s1, Inr l)" and
    R: "resolve k c s1 right = Some (s2, Inr x)" and
    C: "calcSum c s2 op l x = (s', Inr r)"
    by (auto split: option.splits sum.splits)
  have "balanced s s1"
    using "10.IH"(1) L by blast
  moreover have "balanced s1 s2"
    using "10.IH"(2) [OF L refl refl R] .
  moreover have "balanced s2 s'"
    using C by (rule calcSum_balanced)
  ultimately show ?case
    by (rule balanced_step)
next
  case (11 k c s left right op)
  from "11.prems" obtain s1 l s2 x where
    L: "resolve k c s left = Some (s1, Inr l)" and
    R: "resolve k c s1 right = Some (s2, Inr x)" and
    C: "calcProduct s2 op l x = (s', Inr r)"
    by (auto split: option.splits sum.splits)
  have "balanced s s1"
    using "11.IH"(1) L by blast
  moreover have "balanced s1 s2"
    using "11.IH"(2) [OF L refl refl R] .
  moreover have "balanced s2 s'"
    using C by (rule calcProduct_balanced)
  ultimately show ?case
    by (rule balanced_step)
next
  case (13 k c s n rest resolvedArray)
  from "13.prems" obtain s1 x where
    L: "resolve k c s n = Some (s1, Inr x)" and
    D: "(x = None \<and> s' = s1) \<or>
        (\<exists>y. x = Some y \<and> calc_concat k c s1 rest (resolvedArray @ [y]) = Some (s', Inr r))"
    by (auto split: option.splits sum.splits)
  have b: "balanced s s1"
    using "13.IH"(1) L by blast
  from D show ?case
  proof
    assume "x = None \<and> s' = s1"
    with b show ?thesis by simp
  next
    assume "\<exists>y. x = Some y \<and> calc_concat k c s1 rest (resolvedArray @ [y]) = Some (s', Inr r)"
    then obtain y where y: "x = Some y"
      and C: "calc_concat k c s1 rest (resolvedArray @ [y]) = Some (s', Inr r)"
      by blast
    from L y have L': "resolve k c s n = Some (s1, Inr (Some y))"
      by simp
    have "balanced s1 s'"
      by (rule "13.IH"(2) [OF L' refl refl refl C])
    with b show ?thesis
      by (rule balanced_trans)
  qed
next
  case (15 k c s name n rest d ds resolvedArgs)
  from "15.prems" obtain s1 x where
    L: "resolve k c (pushDimension d s) n = Some (s1, Inr x)" and
    D: "(x = None \<and> s' = popDimension s1) \<or>
        (\<exists>y. x = Some y \<and>
           calc_func k c (popDimension s1) name rest (Some ds) (resolvedArgs @ [y]) =
             Some (s', Inr r))"
    by (auto split: option.splits sum.splits)
  have "balanced (pushDimension d s) s1"
    using "15.IH"(1) L by blast
  then have b: "balanced s (popDimension s1)"
    by (rule balanced_push_pop)
  from D show ?case
  proof
    assume "x = None \<and> s' = popDimension s1"
    with b show ?thesis by simp
  next
    assume "\<exists>y. x = Some y \<and>
        calc_func k c (popDimension s1) name rest (Some ds) (resolvedArgs @ [y]) =
          Some (s', Inr r)"
    then obtain y where y: "x = Some y"
      and C: "calc_func k c (popDimension s1) name rest (Some ds) (resolvedArgs @ [y]) =
          Some (s', Inr r)"
      by blast
    from L y have L': "resolve k c (pushDimension d s) n = Some (s1, Inr (Some y))"
      by simp
    have "balanced (popDimension s1) s'"
      by (rule "15.IH"(2) [OF L' refl refl refl C])
    with b show ?thesis
      by (rule balanced_trans)
  qed
next
  case (16 k c s name n rest resolvedArgs)
  from "16.prems" obtain s1 x where
    L: "resolve k c s n = Some (s1, Inr x)" and
    D: "(x = None \<and> s' = s1) \<or>
        (\<exists>y. x = Some y \<and>
           calc_func k c s1 name rest None (resolvedArgs @ [y]) = Some (s', Inr r))"
    by (auto split: option.splits sum.splits)
  have b: "balanced s s1"
    using "16.IH"(1) L by blast
  from D show ?case
  proof
    assume "x = None \<and> s' = s1"
    with b show ?thesis by simp
  next
    assume "\<exists>y. x = Some y \<and>
        calc_func k c s1 name rest None (resolvedArgs @ [y]) = Some (s', Inr r)"
    then obtain y where y: "x = Some y"
      and C: "calc_func k c s1 name rest None (resolvedArgs @ [y]) = Some (s', Inr r)"
      by blast
    from L y have L': "resolve k c s n = Some (s1, Inr (Some y))"
      by simp
    have "balanced s1 s'"
      by (rule "16.IH"(2) [OF L' refl refl refl C])
    with b show ?thesis
      by (rule balanced_trans)
  qed
next
  case (17 k c s name n rest resolvedArgs)
  from "17.prems" obtain s1 x where
    L: "resolve k c s n = Some (s1, Inr x)" and
    D: "(x = None \<and> s' = s1) \<or>
        (\<exists>y. x = Some y \<and>
           calc_func k c s1 name rest (Some []) (resolvedArgs @ [y]) = Some (s', Inr r))"
    by (auto split: option.splits sum.splits)
  have b: "balanced s s1"
    using "17.IH"(1) L by blast
  from D show ?case
  proof
    assume "x = None \<and> s' = s1"
    with b show ?thesis by simp
  next
    assume "\<exists>y. x = Some y \<and>
        calc_func k c s1 name rest (Some []) (resolvedArgs @ [y]) = Some (s', Inr r)"
    then obtain y where y: "x = Some y"
      and C: "calc_func k c s1 name rest (Some []) (resolvedArgs @ [y]) = Some (s', Inr r)"
      by blast
    from L y have L': "resolve k c s n = Some (s1, Inr (Some y))"
      by simp
    have "balanced s1 s'"
      by (rule "17.IH"(2) [OF L' refl refl refl C])
    with b show ?thesis
      by (rule balanced_trans)
  qed
qed (auto simp: balanced_refl balanced_new_node split: option.splits sum.splits
    intro: balanced_trans)

text \<open>
  Claim C7. When the evaluation of a function node returns, a node or \<open>null\<close>, the calls
  made on the context during it follow the calls made before it, as many of them are
  \<open>pushDimension\<close> calls as are \<open>popDimension\<close> calls, and the dimension stack is as it
  was before the evaluation.
\<close>

theorem funcNode_calc_balanced:
  assumes "calc k c s (FuncNode name args dimensions) = Some (s', Inr r)"
  shows "take (length (trace s)) (trace s') = trace s \<and>
         pushDimension_calls s s' = popDimension_calls s s' \<and>
         dimStack s' = dimStack s"
  using evaluation_balanced(2) [OF assms] by (simp add: balanced_def)

theorem funcNode_calc_balanced_witness:
  "calc (Suc (Suc 0)) sample_context sample_state
     (CssTranslateNode []
        [NumericNode (LengthNode (Fin 50) ''px''), VarNode ''--missing'' None]) =
     Some (\<lparr>dimStack = [''w''],
             trace = [PushDimension ''w'', PopDimension, PushDimension ''h'',
                      GetVar ''--missing'', PopDimension],
             allocated = 0\<rparr>, Inr None) \<and>
   pushDimension_calls sample_state
     \<lparr>dimStack = [''w''],
      trace = [PushDimension ''w'', PopDimension, PushDimension ''h'',
               GetVar ''--missing'', PopDimension],
      allocated = 0\<rparr> =
   popDimension_calls sample_state
     \<lparr>dimStack = [''w''],
      trace = [PushDimension ''w'', PopDimension, PushDimension ''h'',
               GetVar ''--missing'', PopDimension],
      allocated = 0\<rparr> \<and>
   popDimension_calls sample_state
     \<lparr>dimStack = [''w''],
      trace = [PushDimension ''w'', PopDimension, PushDimension ''h'',
               GetVar ''--missing'', PopDimension],
      allocated = 0\<rparr> = 2"
proof -
  have translate: "CssTranslateNode [] args = FuncNode ''translate'' args (Some [''w'', ''h''])"
    for args
    by (simp add: CssTranslateNode_def CssFuncNode_def toUpperCase_def toLowerCase_def
        lower_char_def)
  have e: "calc (Suc (Suc 0)) sample_context sample_state
     (CssTranslateNode []
        [NumericNode (LengthNode (Fin 50) ''px''), VarNode ''--missing'' None]) =
     Some (\<lparr>dimStack = [''w''],
             trace = [PushDimension ''w'', PopDimension, PushDimension ''h'',
                      GetVar ''--missing'', PopDimension],
             allocated = 0\<rparr>, Inr None)"
    by (simp add: CssTranslateNode_def CssFuncNode_def toUpperCase_def toLowerCase_def
        lower_char_def sample_context_def sample_state_def pushDimension_def popDimension_def
        called_def)
  show ?thesis
    using e funcNode_calc_balanced [OF e [unfolded translate]]
    by (simp add: popDimension_calls_def calls_between_def sample_state_def)
qed

subsection \<open>A resolved URL\<close>

lemma sample_url_not_const: "\<not> isConst (UrlNode ''a.png'')"
  by (simp add: FINAL_URL_RE_test_def toLowerCase_def lower_char_def)

text \<open>
  Claim C8. Resolving a URL node that is not constant, with any depth but zero, asks
  the context once for the resolved URL and returns a new \<open>CssPassthroughNode\<close> with
  \<open>url("<resolved>")\<close>. That node is constant: resolving it in any context and state
  returns it and leaves the state as it was, so \<open>resolveUrl\<close> is not called again.
\<close>

theorem url_resolves_to_passthrough:
  \<open>\<not> isConst (UrlNode url) \<Longrightarrow>
   resolve (Suc k) c s (UrlNode url) =
     Some (new_node (called (ResolveUrl url) s),
           Inr (Some (PassthroughNode (''url("'' @ resolveUrl c url @ ''")'')))) \<and>
   isConst (PassthroughNode (''url("'' @ resolveUrl c url @ ''")'')) \<and>
   resolve (Suc k') c' s' (PassthroughNode (''url("'' @ resolveUrl c url @ ''")'')) =
     Some (s', Inr (Some (PassthroughNode (''url("'' @ resolveUrl c url @ ''")''))))\<close>
  by (simp add: CssPassthroughNode_def)

theorem url_resolves_to_passthrough_witness:
  \<open>\<not> isConst (UrlNode ''a.png'') \<and>
   resolve (Suc 0) sample_context sample_state (UrlNode ''a.png'') =
     Some (\<lparr>dimStack = [''w''], trace = [ResolveUrl ''a.png''], allocated = 1\<rparr>,
           Inr (Some (PassthroughNode ''url("https://example.com/a.png")''))) \<and>
   resolve (Suc 0) sample_context sample_state
     (PassthroughNode ''url("https://example.com/a.png")'') =
     Some (sample_state, Inr (Some (PassthroughNode ''url("https://example.com/a.png")'')))\<close>
  using url_resolves_to_passthrough [OF sample_url_not_const, where k = 0 and c = sample_context
      and s = sample_state and k' = 0 and c' = sample_context and s' = sample_state]
    sample_url_not_const
  by (simp add: sample_context_def sample_state_def new_node_def called_def)

subsection \<open>The \<open>calc()\<close> wrapper\<close>

lemma isConst_no_CalcNode: "isConst r \<Longrightarrow> \<not> contains_CalcNode r"
  by (induction r) (auto simp: foldl_conj list_all_iff list_ex_iff)

lemma calcSum_const: "calcSum c s op l r = (s', Inr (Some x)) \<Longrightarrow> isConst x"
  by (auto simp: calcSum_def Let_def split: sum.splits option.splits prod.splits)

lemma calcProduct_const: "calcProduct s op l r = (s', Inr (Some x)) \<Longrightarrow> isConst x"
  by (auto simp: calcProduct_def Let_def split: sum.splits option.splits prod.splits if_splits)

text \<open>A node that an evaluation returns is constant.\<close>

lemma resolve_result_const:
  "resolve k c s n = Some (s', Inr (Some r)) \<Longrightarrow> isConst r"
  "calc k c s n = Some (s', Inr (Some r)) \<Longrightarrow> isConst r"
  "calc_concat k c s ns acc = Some (s', Inr (Some r)) \<Longrightarrow> list_all isConst acc \<Longrightarrow> isConst r"
  "calc_func k c s name ns ds acc = Some (s', Inr (Some r)) \<Longrightarrow> list_all isConst acc \<Longrightarrow>
     isConst r"
proof (induction k c s n and k c s n and k c s ns acc and k c s name ns ds acc
    arbitrary: s' r and s' r and s' r and s' r
    rule: resolve_calc_calc_concat_calc_func.induct)
  case (2 k c s n)
  then show ?case by (auto split: if_splits)
next
  case (6 k c s url)
  then show ?case by (auto simp: CssPassthroughNode_def Let_def)
next
  case (8 k c s varName "def")
  then show ?case by (auto simp: Let_def split: option.splits)
next
  case (10 k c s left right op)
  then show ?case
    by (auto split: option.splits sum.splits dest!: calcSum_const)
next
  case (11 k c s left right op)
  then show ?case
    by (auto split: option.splits sum.splits dest!: calcProduct_const)
next
  case (12 k c s resolvedArray)
  then show ?case by (auto simp: CssConcatNode_def foldl_conj)
next
  case (14 k c s name dimensions resolvedArgs)
  then show ?case by (auto simp: CssFuncNode_def foldl_conj)
qed (auto split: option.splits sum.splits)

text \<open>
  Claim C9, as amended. Resolving a \<open>CssCalcNode\<close> is resolving the expression that it
  wraps, one call deeper: the two have the same results. No node that a resolution
  returns, of a \<open>CssCalcNode\<close> or of any other node, contains a \<open>CssCalcNode\<close>; it is a
  constant node. Nothing is said of the text of its serialization, in which a
  \<open>CssPassthroughNode\<close> stands with the text it was given.
\<close>

theorem calcNode_resolves_to_inner:
  "resolve (Suc k) c s (CalcNode expr) = resolve k c s expr \<and>
   ((\<exists>j. resolve j c s (CalcNode expr) = Some out) \<longleftrightarrow> (\<exists>j. resolve j c s expr = Some out)) \<and>
   (resolve k' c' s' n = Some (s'', Inr (Some r)) \<longrightarrow> isConst r \<and> \<not> contains_CalcNode r)"
proof -
  have a: "resolve (Suc k) c s (CalcNode expr) = resolve k c s expr" for k
    by simp
  have "(\<exists>j. resolve j c s (CalcNode expr) = Some out) \<longleftrightarrow> (\<exists>j. resolve j c s expr = Some out)"
  proof
    assume "\<exists>j. resolve j c s (CalcNode expr) = Some out"
    then obtain j where j: "resolve j c s (CalcNode expr) = Some out"
      by blast
    then obtain i where "j = Suc i"
      by (cases j) auto
    with j a show "\<exists>j. resolve j c s expr = Some out"
      by auto
  next
    assume "\<exists>j. resolve j c s expr = Some out"
    then obtain j where "resolve j c s expr = Some out"
      by blast
    then have "resolve (Suc j) c s (CalcNode expr) = Some out"
      by simp
    then show "\<exists>j. resolve j c s (CalcNode expr) = Some out"
      by blast
  qed
  moreover have "resolve k' c' s' n = Some (s'', Inr (Some r)) \<longrightarrow>
      isConst r \<and> \<not> contains_CalcNode r"
    by (blast dest: resolve_result_const(1) isConst_no_CalcNode)
  ultimately show ?thesis
    using a by blast
qed

theorem calcNode_resolves_to_inner_witness:
  "resolve (Suc (Suc (Suc 0))) sample_context sample_state
     (CalcNode (CalcSumNode (NumericNode (LengthNode (Fin 50) ''px''))
        (NumericNode (PercentNode (Fin 50))) ''+'')) =
     Some (\<lparr>dimStack = [''w''], trace = [GetDimension, GetCurrentElementSize], allocated = 2\<rparr>,
           Inr (Some (NumericNode (LengthNode (Fin 150) ''px'')))) \<and>
   isConst (NumericNode (LengthNode (Fin 150) ''px'')) \<and>
   \<not> contains_CalcNode (NumericNode (LengthNode (Fin 150) ''px''))"
proof -
  have e: "resolve (Suc (Suc (Suc 0))) sample_context sample_state
     (CalcNode (CalcSumNode (NumericNode (LengthNode (Fin 50) ''px''))
        (NumericNode (PercentNode (Fin 50))) ''+'')) =
     Some (\<lparr>dimStack = [''w''], trace = [GetDimension, GetCurrentElementSize], allocated = 2\<rparr>,
           Inr (Some (NumericNode (LengthNode (Fin 150) ''px''))))"
    by (simp add: sample_context_def sample_state_def calcSum_def numeric_sides_def
        sum_percent_def sum_norm_def getDimension_def called_def new_node_def CssLengthNode_def
        toLowerCase_px round_to_double_int)
  show ?thesis
    using e calcNode_resolves_to_inner [where k' = "Suc (Suc (Suc 0))" and c' = sample_context
        and s' = sample_state
        and n = "CalcNode (CalcSumNode (NumericNode (LengthNode (Fin 50) ''px''))
          (NumericNode (PercentNode (Fin 50))) ''+'')"
        and s'' = "\<lparr>dimStack = [''w''], trace = [GetDimension, GetCurrentElementSize],
          allocated = 2\<rparr>"
        and r = "NumericNode (LengthNode (Fin 150) ''px'')"]
    by simp
qed

text \<open>
  Claim C9 as stated fails on the text of a \<open>CssPassthroughNode\<close>: the node
  \<open>Calc(Passthrough('calc(1px)'))\<close> resolves to the \<open>CssPassthroughNode\<close>, whose
  serialization is \<open>calc(1px)\<close>.
\<close>

theorem calcNode_serialization_counterexample:
  "resolve (Suc (Suc 0)) sample_context sample_state
     (CssCalcNode (CssPassthroughNode ''calc(1px)'')) =
     Some (sample_state, Inr (Some (PassthroughNode ''calc(1px)''))) \<and>
   css sample_numberToString (PassthroughNode ''calc(1px)'') = ''calc(1px)'' \<and>
   sublist ''calc('' ''calc(1px)''"
proof -
  have "prefix ''calc('' ''calc(1px)''"
    by simp
  then have "sublist ''calc('' ''calc(1px)''"
    by (rule prefix_imp_sublist)
  then show ?thesis
    by (simp add: CssCalcNode_def CssPassthroughNode_def)
qed

subsection \<open>\<open>CssConcatNode.concat\<close> on a \<open>CssConcatNode\<close>\<close>

text \<open>
  Claim C10, as amended. When the first argument \<open>a\<close> is a \<open>CssConcatNode\<close> with the
  elements \<open>xs\<close>, and \<open>ys\<close> are the elements of the second argument \<open>b\<close> when that is a
  \<open>CssConcatNode\<close> and \<open>b\<close> alone when it is not, then \<open>concat\<close> returns the reference
  \<open>a\<close> itself; afterwards the elements of \<open>a\<close> are \<open>xs\<close> followed by \<open>ys\<close>, no node
  object has been created and every other node object is as it was: the node of the
  caller is changed. When \<open>b\<close> is no \<open>CssConcatNode\<close>, the array of \<open>a\<close> is the one it
  was, with \<open>b\<close> pushed on it in place; when \<open>b\<close> is one, the field \<open>array_\<close> of \<open>a\<close>
  refers to a new array (the result of \<open>Array.prototype.concat\<close>), and the array that
  \<open>a\<close> had and every other array are as they were.
\<close>

theorem concat_first_argument_CssConcatNode:
  assumes "heap_ok h"
    and "objects h a = Some (ConcatObject ar)"
    and "arrays h ar = Some xs"
    and "objects h b = Some y"
    and "(case y of ConcatObject br \<Rightarrow> arrays h br | OtherObject v \<Rightarrow> Some [b]) = Some ys"
  shows "\<exists>h'. concat' h a b = Some (h', a) \<and>
           elements h' a = Some (xs @ ys) \<and>
           nextObject h' = nextObject h \<and>
           (\<forall>r. r \<noteq> a \<longrightarrow> objects h' r = objects h r) \<and>
           (case y of
              OtherObject v \<Rightarrow>
                objects h' a = Some (ConcatObject ar) \<and>
                (\<forall>r. r \<noteq> ar \<longrightarrow> arrays h' r = arrays h r)
            | ConcatObject br \<Rightarrow>
                objects h' a = Some (ConcatObject (nextArray h)) \<and>
                arrays h (nextArray h) = None \<and>
                (\<forall>r. r \<noteq> nextArray h \<longrightarrow> arrays h' r = arrays h r))"
proof (cases y)
  case (ConcatObject br)
  from assms(1) have "arrays h (nextArray h) = None"
    unfolding heap_ok_def by (metis less_irrefl)
  with assms ConcatObject show ?thesis
    by (simp add: concat'_def array_of_def elements_def new_array_def)
next
  case (OtherObject v)
  with assms show ?thesis
    by (simp add: concat'_def array_of_def elements_def)
qed

theorem concat_first_argument_CssConcatNode_witness:
  "heap_ok sample_heap \<and>
   objects sample_heap 0 = Some (ConcatObject 0) \<and>
   arrays sample_heap 0 = Some [1] \<and>
   objects sample_heap 2 = Some (ConcatObject 1) \<and>
   arrays sample_heap 1 = Some [1, 1] \<and>
   (\<exists>h'. concat' sample_heap 0 2 = Some (h', 0) \<and>
      elements h' 0 = Some [1, 1, 1] \<and>
      objects h' 0 = Some (ConcatObject 2) \<and>
      arrays h' 0 = Some [1] \<and>
      nextObject h' = 3) \<and>
   objects sample_heap 1 = Some (OtherObject ()) \<and>
   (\<exists>h'. concat' sample_heap 0 1 = Some (h', 0) \<and>
      elements h' 0 = Some [1, 1] \<and>
      objects h' 0 = Some (ConcatObject 0) \<and>
      arrays h' 0 = Some [1, 1] \<and>
      nextObject h' = 3)"
proof -
  have ok: "heap_ok sample_heap"
    by (auto simp: heap_ok_def sample_heap_def split: if_splits)
  have a: "objects sample_heap 0 = Some (ConcatObject 0)"
    by (simp add: sample_heap_def)
  have xs: "arrays sample_heap 0 = Some [1]"
    by (simp add: sample_heap_def)
  have b: "objects sample_heap 2 = Some (ConcatObject 1)"
    by (simp add: sample_heap_def)
  have ys: "(case ConcatObject 1 of ConcatObject br \<Rightarrow> arrays sample_heap br
      | OtherObject (v::unit) \<Rightarrow> Some [2]) = Some [1, 1]"
    by (simp add: sample_heap_def)
  have b': "objects sample_heap 1 = Some (OtherObject ())"
    by (simp add: sample_heap_def)
  have ys': "(case OtherObject () of ConcatObject br \<Rightarrow> arrays sample_heap br
      | OtherObject (v::unit) \<Rightarrow> Some [1]) = Some [1]"
    by simp
  have n: "nextArray sample_heap = 2" "nextObject sample_heap = 3"
    by (simp_all add: sample_heap_def)
  from concat_first_argument_CssConcatNode [OF ok a xs b ys]
  obtain h1 where h1: "concat' sample_heap 0 2 = Some (h1, 0)" "elements h1 0 = Some [1, 1, 1]"
    "objects h1 0 = Some (ConcatObject 2)" "arrays h1 0 = Some [1]" "nextObject h1 = 3"
    using n xs by auto
  from concat_first_argument_CssConcatNode [OF ok a xs b' ys']
  obtain h2 where h2: "concat' sample_heap 0 1 = Some (h2, 0)" "elements h2 0 = Some [1, 1]"
    "objects h2 0 = Some (ConcatObject 0)" "nextObject h2 = 3"
    using n by auto
  from h2 have "arrays h2 0 = Some [1, 1]"
    by (simp add: elements_def array_of_def)
  with ok a xs b ys b' h1 h2 show ?thesis
    by (simp add: sample_heap_def)
qed

text \<open>
  Claim C10 as stated fails where the second argument is a \<open>CssConcatNode\<close>: in the sample
  heap, after \<open>concat\<close> of the nodes at 0 and at 2 the array at 0, which was the array of
  the node at 0, holds what it held, and the node refers to the new array at 2.
\<close>

theorem concat_new_array_counterexample:
  "concat' sample_heap 0 2 = Some (sample_heap_concat, 0) \<and>
   array_of sample_heap 0 = Some 0 \<and>
   arrays sample_heap 0 = Some [1] \<and>
   array_of sample_heap_concat 0 = Some 2 \<and>
   arrays sample_heap_concat 2 = Some [1, 1, 1] \<and>
   arrays sample_heap_concat 0 = Some [1]"
proof -
  have "concat' sample_heap 0 2 = Some (sample_heap_concat, 0)"
    by (auto simp: concat'_def sample_heap_def sample_heap_concat_def array_of_def
        new_array_def fun_eq_iff)
  then show ?thesis
    by (simp add: sample_heap_def sample_heap_concat_def array_of_def)
qed

end
